theory Spec2Isabelle
  imports
    Main
    "HOL-Library.AList"
    "HOL-Library.Char_ord"
    "HOL-Library.List_Lexorder"
    "HOL-Library.Product_Lexorder"
begin

section \<open>Python values, dictionaries and exceptions\<close>

text \<open>
  The forensic engine works on JSON-like dictionaries. A naive \<^verbatim>\<open>datetime\<close> as produced by
  \<^verbatim>\<open>datetime.strptime(s, "%Y-%m-%d %H:%M:%S")\<close> has no time zone and zero microseconds, so
  it is the six fields year, month, day, hour, minute, second. Strings are lists of
  characters with code points below 256.
\<close>

datatype datetime =
  Datetime (dt_year: nat) (dt_month: nat) (dt_day: nat)
           (dt_hour: nat) (dt_minute: nat) (dt_second: nat)

datatype pyval = VNone | VBool bool | VInt int | VStr string | VDatetime datetime

text \<open>
  The exceptions that can escape the modelled functions. \<^verbatim>\<open>ValueError\<close> is always caught
  where it can arise (the timestamp parser), so it is the \<open>None\<close> of \<open>strptime\<close> below.
\<close>

datatype error = KeyError | TypeError | AttributeError

text \<open>
  A \<^verbatim>\<open>dict\<close> with string keys, in insertion order. \<^verbatim>\<open>d.get(k, default)\<close>, \<^verbatim>\<open>d[k]\<close>
  (raising \<^verbatim>\<open>KeyError\<close>), \<^verbatim>\<open>k in d\<close> and \<^verbatim>\<open>d[k] = v\<close>.
\<close>

type_synonym pydict = "(string \<times> pyval) list"

definition dict_get :: "pydict \<Rightarrow> string \<Rightarrow> pyval \<Rightarrow> pyval" where
  "dict_get d k dflt = (case map_of d k of None \<Rightarrow> dflt | Some v \<Rightarrow> v)"

definition dict_index :: "pydict \<Rightarrow> string \<Rightarrow> error + pyval" where
  "dict_index d k = (case map_of d k of None \<Rightarrow> Inl KeyError | Some v \<Rightarrow> Inr v)"

definition dict_has :: "pydict \<Rightarrow> string \<Rightarrow> bool" where
  "dict_has d k = (map_of d k \<noteq> None)"

definition dict_set :: "pydict \<Rightarrow> string \<Rightarrow> pyval \<Rightarrow> pydict" where
  "dict_set d k v = AList.update k v d"

text \<open>A loop whose body may raise stops at the first exception.\<close>

fun map_err :: "('a \<Rightarrow> error + 'b) \<Rightarrow> 'a list \<Rightarrow> error + 'b list" where
  "map_err f [] = Inr []"
| "map_err f (x # xs) =
     (case f x of
        Inl e \<Rightarrow> Inl e
      | Inr y \<Rightarrow> (case map_err f xs of Inl e \<Rightarrow> Inl e | Inr ys \<Rightarrow> Inr (y # ys)))"

text \<open>Truthiness of a value in a condition, and \<^verbatim>\<open>str(v)\<close> as used by f-strings.\<close>

fun truthy :: "pyval \<Rightarrow> bool" where
  "truthy VNone = False"
| "truthy (VBool b) = b"
| "truthy (VInt i) = (i \<noteq> 0)"
| "truthy (VStr s) = (s \<noteq> [])"
| "truthy (VDatetime d) = True"

definition digit_char :: "nat \<Rightarrow> char" where
  "digit_char n = char_of (48 + n)"

fun str_nat :: "nat \<Rightarrow> string" where
  "str_nat n = (if n < 10 then [digit_char n] else str_nat (n div 10) @ [digit_char (n mod 10)])"

declare str_nat.simps [simp del]

definition str_int :: "int \<Rightarrow> string" where
  "str_int i = (if i < 0 then CHR ''-'' # str_nat (nat (- i)) else str_nat (nat i))"

definition pad2 :: "nat \<Rightarrow> string" where
  "pad2 n = (if n < 10 then CHR ''0'' # str_nat n else str_nat n)"

definition pad4 :: "nat \<Rightarrow> string" where
  "pad4 n = replicate (4 - length (str_nat n)) CHR ''0'' @ str_nat n"

text \<open>
  The canonical text \<^verbatim>\<open>YYYY-MM-DD HH:MM:SS\<close> of an instant, every field zero-padded:
  \<^verbatim>\<open>str(d)\<close> of a naive datetime without microseconds.
\<close>

definition strftime :: "datetime \<Rightarrow> string" where
  "strftime d =
     pad4 (dt_year d) @ ''-'' @ pad2 (dt_month d) @ ''-'' @ pad2 (dt_day d) @ '' '' @
     pad2 (dt_hour d) @ '':'' @ pad2 (dt_minute d) @ '':'' @ pad2 (dt_second d)"

text \<open>
  \<^verbatim>\<open>d.strftime("%Y-%m-%d %H:%M:%S")\<close>, which hands the format to the C library: the year
  is printed as a plain number, without padding (\<^verbatim>\<open>999-12-31 23:59:59\<close>), and the other
  fields on two digits. From the year 1000 on it is the canonical text.
\<close>

definition strftime_libc :: "datetime \<Rightarrow> string" where
  "strftime_libc d =
     str_nat (dt_year d) @ ''-'' @ pad2 (dt_month d) @ ''-'' @ pad2 (dt_day d) @ '' '' @
     pad2 (dt_hour d) @ '':'' @ pad2 (dt_minute d) @ '':'' @ pad2 (dt_second d)"

fun py_str :: "pyval \<Rightarrow> string" where
  "py_str VNone = ''None''"
| "py_str (VBool b) = (if b then ''True'' else ''False'')"
| "py_str (VInt i) = str_int i"
| "py_str (VStr s) = s"
| "py_str (VDatetime d) = strftime d"

section \<open>Severity classifier (\<^verbatim>\<open>calculate_anomaly_severity\<close>)\<close>

datatype severity = CRITICAL | HIGH | MEDIUM | LOW

text \<open>The dictionary \<^verbatim>\<open>severity_weights\<close>; its keys are the five strings below.\<close>

definition severity_weights :: "(pyval \<times> severity) list" where
  "severity_weights =
     [(VStr ''future_timestamp'', CRITICAL),
      (VStr ''post_deletion_activity'', HIGH),
      (VStr ''timestamp_gap'', MEDIUM),
      (VStr ''duplicate_event'', LOW),
      (VStr ''missing_fields'', MEDIUM)]"

text \<open>
  One iteration's lookup:
  \<^verbatim>\<open>severity_weights.get(anomaly.get("type", "unknown"), "LOW")\<close>.
\<close>

definition anomaly_severity :: "pydict \<Rightarrow> severity" where
  "anomaly_severity anomaly =
     (let anomaly_type = dict_get anomaly ''type'' (VStr ''unknown'')
      in case map_of severity_weights anomaly_type of None \<Rightarrow> LOW | Some s \<Rightarrow> s)"

text \<open>The loop \<^verbatim>\<open>severity_scores[severity] += 1\<close> over the anomalies.\<close>

fun count_severities :: "pydict list \<Rightarrow> (severity \<Rightarrow> int) \<Rightarrow> (severity \<Rightarrow> int)" where
  "count_severities [] severity_scores = severity_scores"
| "count_severities (anomaly # anomalies) severity_scores =
     (let severity = anomaly_severity anomaly
      in count_severities anomalies
           (severity_scores(severity := severity_scores severity + 1)))"

record severity_assessment =
  severity_distribution :: "severity \<Rightarrow> int"
  total_anomalies :: int
  critical_anomalies :: int
  high_anomalies :: int

definition calculate_anomaly_severity :: "pydict list \<Rightarrow> severity_assessment" where
  "calculate_anomaly_severity anomalies =
     (let severity_scores = count_severities anomalies (\<lambda>s. 0)
      in \<lparr> severity_distribution = severity_scores,
           total_anomalies = int (length anomalies),
           critical_anomalies = severity_scores CRITICAL,
           high_anomalies = severity_scores HIGH \<rparr>)"

section \<open>Dates: the calendar, \<^verbatim>\<open>strptime\<close>, comparison and subtraction\<close>

text \<open>
  The calendar of Python's \<^verbatim>\<open>datetime\<close> module (\<^verbatim>\<open>_is_leap\<close>, \<^verbatim>\<open>_days_in_month\<close>,
  \<^verbatim>\<open>_days_before_year\<close>, \<^verbatim>\<open>_days_before_month\<close>, \<^verbatim>\<open>toordinal\<close>). The constructor
  \<^verbatim>\<open>datetime(y, m, d, H, M, S)\<close> raises \<^verbatim>\<open>ValueError\<close> outside the ranges checked by
  \<open>datetime_new\<close>; \<open>days_in_month\<close> is only meaningful for months 1 to 12.
\<close>

definition is_leap :: "nat \<Rightarrow> bool" where
  "is_leap y = (y mod 4 = 0 \<and> (y mod 100 \<noteq> 0 \<or> y mod 400 = 0))"

definition days_in_month :: "nat \<Rightarrow> nat \<Rightarrow> nat" where
  "days_in_month y m =
     (if m = 2 then (if is_leap y then 29 else 28)
      else if m = 4 \<or> m = 6 \<or> m = 9 \<or> m = 11 then 30
      else if 1 \<le> m \<and> m \<le> 12 then 31
      else 0)"

definition datetime_new :: "nat \<Rightarrow> nat \<Rightarrow> nat \<Rightarrow> nat \<Rightarrow> nat \<Rightarrow> nat \<Rightarrow> datetime option" where
  "datetime_new y m d H M S =
     (if 1 \<le> y \<and> y \<le> 9999 \<and> 1 \<le> m \<and> m \<le> 12 \<and> 1 \<le> d \<and> d \<le> days_in_month y m
         \<and> H \<le> 23 \<and> M \<le> 59 \<and> S \<le> 59
      then Some (Datetime y m d H M S) else None)"

text \<open>\<^verbatim>\<open>datetime.min\<close> is 0001-01-01 00:00:00.\<close>

definition datetime_min :: datetime where
  "datetime_min = Datetime 1 1 1 0 0 0"

definition days_before_year :: "nat \<Rightarrow> int" where
  "days_before_year y =
     (let p = int y - 1 in p * 365 + p div 4 - p div 100 + p div 400)"

definition days_before_month :: "nat \<Rightarrow> nat \<Rightarrow> int" where
  "days_before_month y m = int (sum_list (map (days_in_month y) [1..<m]))"

definition toordinal :: "datetime \<Rightarrow> int" where
  "toordinal d =
     days_before_year (dt_year d) + days_before_month (dt_year d) (dt_month d) + int (dt_day d)"

text \<open>
  \<^verbatim>\<open>a - b\<close> of two naive datetimes is a \<^verbatim>\<open>timedelta\<close>; with zero microseconds it is a whole
  number of seconds, which is what \<^verbatim>\<open>total_seconds()\<close> returns (as a float that represents
  it exactly, the magnitude being far below \<open>2 ^ 53\<close>), and \<^verbatim>\<open>.days\<close> is its floor
  division by 86400.
\<close>

definition dt_sub :: "datetime \<Rightarrow> datetime \<Rightarrow> int" where
  "dt_sub a b =
     (toordinal a - toordinal b) * 86400
     + ((int (dt_hour a) * 3600 + int (dt_minute a) * 60 + int (dt_second a))
        - (int (dt_hour b) * 3600 + int (dt_minute b) * 60 + int (dt_second b)))"

definition td_days :: "int \<Rightarrow> int" where
  "td_days total_seconds = total_seconds div 86400"

text \<open>Datetimes compare as the tuples of their fields.\<close>

definition dt_tuple :: "datetime \<Rightarrow> nat \<times> nat \<times> nat \<times> nat \<times> nat \<times> nat" where
  "dt_tuple d = (dt_year d, dt_month d, dt_day d, dt_hour d, dt_minute d, dt_second d)"

text \<open>
  \<^verbatim>\<open>datetime.strptime(s, "%Y-%m-%d %H:%M:%S")\<close>. The library turns the format into the
  regular expression
  \<^verbatim>\<open>(\d\d\d\d)-(1[0-2]|0[1-9]|[1-9])-(3[0-1]|[1-2]\d|0[1-9]|[1-9]| [1-9])\s+(2[0-3]|[0-1]\d|\d):([0-5]\d|\d):(6[0-1]|[0-5]\d|\d)\<close>,
  matches it at the start of the string, rejects the string when text remains after the
  match, and builds the datetime from the numbers, which rejects year 0, a day beyond the
  month's length and the seconds 60 and 61. Each group below tries the alternatives of its
  regular expression in order; as every group is followed by a separator that is not a
  digit (or by the end), the first alternative that matches is the one the match uses.
  A failure of any kind is the library's \<^verbatim>\<open>ValueError\<close>, here \<open>None\<close>.
\<close>

definition in_range :: "char \<Rightarrow> char \<Rightarrow> char \<Rightarrow> bool" where
  "in_range lo hi c = (lo \<le> c \<and> c \<le> hi)"

definition is_digit :: "char \<Rightarrow> bool" where
  "is_digit c = in_range CHR ''0'' CHR ''9'' c"

definition digit_val :: "char \<Rightarrow> nat" where
  "digit_val c = of_char c - 48"

definition num2 :: "char \<Rightarrow> char \<Rightarrow> nat" where
  "num2 a b = 10 * digit_val a + digit_val b"

text \<open>The characters below 256 that \<^verbatim>\<open>\s\<close> matches in a \<^verbatim>\<open>str\<close> pattern.\<close>

definition is_space :: "char \<Rightarrow> bool" where
  "is_space c = (of_char c \<in> {9, 10, 11, 12, 13, 28, 29, 30, 31, 32, 133, 160 :: nat})"

fun re_Y :: "string \<Rightarrow> (nat \<times> string) option" where
  "re_Y (a # b # c # d # r) =
     (if is_digit a \<and> is_digit b \<and> is_digit c \<and> is_digit d
      then Some (1000 * digit_val a + 100 * digit_val b + 10 * digit_val c + digit_val d, r)
      else None)"
| "re_Y _ = None"

fun re_m :: "string \<Rightarrow> (nat \<times> string) option" where
  "re_m (a # b # r) =
     (if a = CHR ''1'' \<and> in_range CHR ''0'' CHR ''2'' b then Some (num2 a b, r)
      else if a = CHR ''0'' \<and> in_range CHR ''1'' CHR ''9'' b then Some (num2 a b, r)
      else if in_range CHR ''1'' CHR ''9'' a then Some (digit_val a, b # r)
      else None)"
| "re_m [a] = (if in_range CHR ''1'' CHR ''9'' a then Some (digit_val a, []) else None)"
| "re_m [] = None"

fun re_d :: "string \<Rightarrow> (nat \<times> string) option" where
  "re_d (a # b # r) =
     (if a = CHR ''3'' \<and> in_range CHR ''0'' CHR ''1'' b then Some (num2 a b, r)
      else if in_range CHR ''1'' CHR ''2'' a \<and> is_digit b then Some (num2 a b, r)
      else if a = CHR ''0'' \<and> in_range CHR ''1'' CHR ''9'' b then Some (num2 a b, r)
      else if in_range CHR ''1'' CHR ''9'' a then Some (digit_val a, b # r)
      else if a = CHR '' '' \<and> in_range CHR ''1'' CHR ''9'' b then Some (digit_val b, r)
      else None)"
| "re_d [a] = (if in_range CHR ''1'' CHR ''9'' a then Some (digit_val a, []) else None)"
| "re_d [] = None"

fun re_H :: "string \<Rightarrow> (nat \<times> string) option" where
  "re_H (a # b # r) =
     (if a = CHR ''2'' \<and> in_range CHR ''0'' CHR ''3'' b then Some (num2 a b, r)
      else if in_range CHR ''0'' CHR ''1'' a \<and> is_digit b then Some (num2 a b, r)
      else if is_digit a then Some (digit_val a, b # r)
      else None)"
| "re_H [a] = (if is_digit a then Some (digit_val a, []) else None)"
| "re_H [] = None"

fun re_M :: "string \<Rightarrow> (nat \<times> string) option" where
  "re_M (a # b # r) =
     (if in_range CHR ''0'' CHR ''5'' a \<and> is_digit b then Some (num2 a b, r)
      else if is_digit a then Some (digit_val a, b # r)
      else None)"
| "re_M [a] = (if is_digit a then Some (digit_val a, []) else None)"
| "re_M [] = None"

fun re_S :: "string \<Rightarrow> (nat \<times> string) option" where
  "re_S (a # b # r) =
     (if a = CHR ''6'' \<and> in_range CHR ''0'' CHR ''1'' b then Some (num2 a b, r)
      else if in_range CHR ''0'' CHR ''5'' a \<and> is_digit b then Some (num2 a b, r)
      else if is_digit a then Some (digit_val a, b # r)
      else None)"
| "re_S [a] = (if is_digit a then Some (digit_val a, []) else None)"
| "re_S [] = None"

fun re_lit :: "char \<Rightarrow> string \<Rightarrow> string option" where
  "re_lit c (a # r) = (if a = c then Some r else None)"
| "re_lit c [] = None"

fun re_spaces :: "string \<Rightarrow> string option" where
  "re_spaces (a # r) = (if is_space a then Some (dropWhile is_space r) else None)"
| "re_spaces [] = None"

definition strptime :: "string \<Rightarrow> datetime option" where
  "strptime s =
     Option.bind (re_Y s) (\<lambda>(y, s1).
     Option.bind (re_lit CHR ''-'' s1) (\<lambda>s2.
     Option.bind (re_m s2) (\<lambda>(m, s3).
     Option.bind (re_lit CHR ''-'' s3) (\<lambda>s4.
     Option.bind (re_d s4) (\<lambda>(d, s5).
     Option.bind (re_spaces s5) (\<lambda>s6.
     Option.bind (re_H s6) (\<lambda>(H, s7).
     Option.bind (re_lit CHR '':'' s7) (\<lambda>s8.
     Option.bind (re_M s8) (\<lambda>(M, s9).
     Option.bind (re_lit CHR '':'' s9) (\<lambda>s10.
     Option.bind (re_S s10) (\<lambda>(S, s11).
     if s11 = [] then datetime_new y m d H M S else None)))))))))))"

section \<open>Comparison and sorting of Python values\<close>

text \<open>
  \<^verbatim>\<open>a < b\<close>: strings compare by code points, \<^verbatim>\<open>int\<close> and \<^verbatim>\<open>bool\<close> as numbers, datetimes
  chronologically; every other pair, and \<^verbatim>\<open>None\<close> with anything, raises \<^verbatim>\<open>TypeError\<close>.
\<close>

fun num_of :: "pyval \<Rightarrow> int option" where
  "num_of (VInt i) = Some i"
| "num_of (VBool b) = Some (if b then 1 else 0)"
| "num_of _ = None"

fun py_lt :: "pyval \<Rightarrow> pyval \<Rightarrow> error + bool" where
  "py_lt (VStr a) (VStr b) = Inr (a < b)"
| "py_lt (VDatetime a) (VDatetime b) = Inr (dt_tuple a < dt_tuple b)"
| "py_lt a b =
     (case (num_of a, num_of b) of
        (Some i, Some j) \<Rightarrow> Inr (i < j)
      | _ \<Rightarrow> Inl TypeError)"

text \<open>
  \<^verbatim>\<open>sorted\<close> and \<^verbatim>\<open>list.sort\<close> are stable, use only \<^verbatim>\<open><\<close> on the keys and propagate the
  exception of a failing comparison. The model is the stable insertion sort with the same
  comparison: it raises exactly when the keys of a list of two or more elements are not
  all of one comparable kind, and otherwise returns the stable ascending order.
\<close>

fun py_insort_key :: "('a \<Rightarrow> pyval) \<Rightarrow> 'a \<Rightarrow> 'a list \<Rightarrow> error + 'a list" where
  "py_insort_key f x [] = Inr [x]"
| "py_insort_key f x (y # ys) =
     (case py_lt (f y) (f x) of
        Inl e \<Rightarrow> Inl e
      | Inr lt \<Rightarrow>
          if lt then (case py_insort_key f x ys of Inl e \<Rightarrow> Inl e | Inr zs \<Rightarrow> Inr (y # zs))
          else Inr (x # y # ys))"

fun py_sorted :: "('a \<Rightarrow> pyval) \<Rightarrow> 'a list \<Rightarrow> error + 'a list" where
  "py_sorted f [] = Inr []"
| "py_sorted f (x # xs) =
     (case py_sorted f xs of Inl e \<Rightarrow> Inl e | Inr ys \<Rightarrow> py_insort_key f x ys)"

text \<open>
  Sorting with a key function that may itself raise: the keys of all elements are
  computed first, in list order, then the list is sorted by them.
\<close>

definition py_sort :: "('a \<Rightarrow> error + pyval) \<Rightarrow> 'a list \<Rightarrow> error + 'a list" where
  "py_sort key xs =
     (case map_err key xs of
        Inl e \<Rightarrow> Inl e
      | Inr ks \<Rightarrow>
          (case py_sorted fst (zip ks xs) of Inl e \<Rightarrow> Inl e | Inr ps \<Rightarrow> Inr (map snd ps)))"

fun filter_err :: "('a \<Rightarrow> error + bool) \<Rightarrow> 'a list \<Rightarrow> error + 'a list" where
  "filter_err p [] = Inr []"
| "filter_err p (x # xs) =
     (case p x of
        Inl e \<Rightarrow> Inl e
      | Inr b \<Rightarrow>
          (case filter_err p xs of
             Inl e \<Rightarrow> Inl e
           | Inr ys \<Rightarrow> Inr (if b then x # ys else ys)))"

section \<open>Timestamp normalizer (\<^verbatim>\<open>normalize_timestamps\<close>)\<close>

text \<open>
  The evidence mapping is a dictionary from source name to a list of records; its items
  are visited in insertion order, and its keys are distinct.
\<close>

type_synonym evidence_data = "(string \<times> pydict list) list"

text \<open>
  The body of the inner loop for one record. \<^verbatim>\<open>evidence["timestamp"]\<close> raises
  \<^verbatim>\<open>KeyError\<close> when the field is missing and the parser raises \<^verbatim>\<open>ValueError\<close> on a string
  it rejects; both are caught. Given anything but a string the parser raises
  \<^verbatim>\<open>TypeError\<close>, which the \<^verbatim>\<open>except (ValueError, KeyError)\<close> clause does not catch.
\<close>

definition mark_valid :: "pydict \<Rightarrow> datetime \<Rightarrow> pydict" where
  "mark_valid evidence parsed_timestamp =
     dict_set (dict_set evidence ''parsed_timestamp'' (VDatetime parsed_timestamp))
       ''timestamp_valid'' (VBool True)"

definition mark_invalid :: "pydict \<Rightarrow> pydict" where
  "mark_invalid evidence =
     dict_set (dict_set evidence ''timestamp_valid'' (VBool False)) ''parsed_timestamp'' VNone"

definition normalize_record :: "pydict \<Rightarrow> error + pydict" where
  "normalize_record evidence =
     (case map_of evidence ''timestamp'' of
        None \<Rightarrow> Inr (mark_invalid evidence)
      | Some (VStr timestamp_str) \<Rightarrow>
          (case strptime timestamp_str of
             Some parsed_timestamp \<Rightarrow> Inr (mark_valid evidence parsed_timestamp)
           | None \<Rightarrow> Inr (mark_invalid evidence))
      | Some _ \<Rightarrow> Inl TypeError)"

definition normalize_source :: "string \<times> pydict list \<Rightarrow> error + string \<times> pydict list" where
  "normalize_source item =
     (case map_err normalize_record (snd item) of
        Inl e \<Rightarrow> Inl e
      | Inr normalized_evidence \<Rightarrow> Inr (fst item, normalized_evidence))"

definition normalize_timestamps :: "evidence_data \<Rightarrow> error + evidence_data" where
  "normalize_timestamps evidence_data = map_err normalize_source evidence_data"

section \<open>Anomaly rule battery\<close>

text \<open>
  Every finding carries the detection time \<^verbatim>\<open>datetime.now().strftime(...)\<close>; the text
  of the clock reading is the parameter \<open>now\<close> of the detectors.
\<close>

definition make_anomaly :: "string \<Rightarrow> string \<Rightarrow> string \<Rightarrow> string \<Rightarrow> pydict" where
  "make_anomaly now source_type anomaly_type details =
     [(''timestamp'', VStr now), (''source'', VStr source_type),
      (''type'', VStr anomaly_type), (''details'', VStr details)]"

definition is_valid :: "pydict \<Rightarrow> bool" where
  "is_valid e = truthy (dict_get e ''timestamp_valid'' (VBool False))"

subsection \<open>Timestamp gaps (\<^verbatim>\<open>detect_timestamp_gaps\<close>)\<close>

definition GAP_THRESHOLD_HOURS :: int where
  "GAP_THRESHOLD_HOURS = 24"

text \<open>
  \<^verbatim>\<open>(c - p).total_seconds()\<close>: defined for two datetimes; two numbers subtract to
  an \<^verbatim>\<open>int\<close>, which has no \<^verbatim>\<open>total_seconds\<close>; other operands do not subtract.
\<close>

definition time_diff :: "pyval \<Rightarrow> pyval \<Rightarrow> error + int" where
  "time_diff c p =
     (case (c, p) of
        (VDatetime a, VDatetime b) \<Rightarrow> Inr (dt_sub a b)
      | _ \<Rightarrow>
          (case (num_of c, num_of p) of
             (Some i, Some j) \<Rightarrow> Inl AttributeError
           | _ \<Rightarrow> Inl TypeError))"

text \<open>The loop over \<^verbatim>\<open>range(1, len(valid_evidence))\<close>, taken as consecutive pairs.\<close>

fun gap_loop :: "string \<Rightarrow> string \<Rightarrow> pydict list \<Rightarrow> error + pydict list" where
  "gap_loop now source_type (prev_event # curr_event # rest) =
     (case dict_index curr_event ''parsed_timestamp'' of Inl e \<Rightarrow> Inl e | Inr c \<Rightarrow>
      case dict_index prev_event ''parsed_timestamp'' of Inl e \<Rightarrow> Inl e | Inr p \<Rightarrow>
      case time_diff c p of Inl e \<Rightarrow> Inl e | Inr total_seconds \<Rightarrow>
      if total_seconds > GAP_THRESHOLD_HOURS * 3600 then
        (case dict_index prev_event ''timestamp'' of Inl e \<Rightarrow> Inl e | Inr pt \<Rightarrow>
         case dict_index curr_event ''timestamp'' of Inl e \<Rightarrow> Inl e | Inr ct \<Rightarrow>
         case gap_loop now source_type (curr_event # rest) of Inl e \<Rightarrow> Inl e | Inr anomalies \<Rightarrow>
         Inr (make_anomaly now source_type ''timestamp_gap''
                (''Gap of '' @ str_int (td_days total_seconds) @ '' days detected between ''
                 @ py_str pt @ '' and '' @ py_str ct) # anomalies))
      else gap_loop now source_type (curr_event # rest))"
| "gap_loop now source_type _ = Inr []"

definition gaps_of_source :: "string \<Rightarrow> string \<times> pydict list \<Rightarrow> error + pydict list" where
  "gaps_of_source now item =
     (let valid_evidence = filter is_valid (snd item)
      in if length valid_evidence < 2 then Inr []
         else (case py_sort (\<lambda>x. dict_index x ''parsed_timestamp'') valid_evidence of
                 Inl e \<Rightarrow> Inl e
               | Inr sorted_evidence \<Rightarrow> gap_loop now (fst item) sorted_evidence))"

definition detect_timestamp_gaps :: "string \<Rightarrow> evidence_data \<Rightarrow> error + pydict list" where
  "detect_timestamp_gaps now evidence_data =
     (case map_err (gaps_of_source now) evidence_data of
        Inl e \<Rightarrow> Inl e
      | Inr per_source \<Rightarrow> Inr (concat per_source))"

subsection \<open>Post-deletion activity (\<^verbatim>\<open>detect_post_deletion_activity\<close>)\<close>

text \<open>
  \<^verbatim>\<open>evidence_list.sort(key=lambda x: x.get("parsed_timestamp", datetime.min))\<close> sorts the
  caller's list in place, so the detector returns, next to its findings, the evidence
  mapping as it has left it.
\<close>

definition is_deletion :: "pydict \<Rightarrow> bool" where
  "is_deletion e =
     (dict_get e ''type'' VNone = VStr ''deleted'' \<and> truthy (dict_get e ''timestamp_valid'' VNone))"

text \<open>
  The condition of the inner scan:
  \<^verbatim>\<open>e.get("timestamp_valid") and e["parsed_timestamp"] > deletion_time and e.get("type") != "deleted"\<close>.
\<close>

definition after_deletion :: "pyval \<Rightarrow> pydict \<Rightarrow> error + bool" where
  "after_deletion deletion_time e =
     (if truthy (dict_get e ''timestamp_valid'' VNone) then
        (case dict_index e ''parsed_timestamp'' of Inl err \<Rightarrow> Inl err | Inr t \<Rightarrow>
         case py_lt deletion_time t of Inl err \<Rightarrow> Inl err | Inr later \<Rightarrow>
         Inr (later \<and> dict_get e ''type'' VNone \<noteq> VStr ''deleted''))
      else Inr False)"

definition deletion_finding ::
  "string \<Rightarrow> string \<Rightarrow> pydict list \<Rightarrow> pyval \<Rightarrow> error + pydict list" where
  "deletion_finding now source_type evidence_list deletion_time =
     (case filter_err (after_deletion deletion_time) evidence_list of
        Inl e \<Rightarrow> Inl e
      | Inr post_deletion_activity \<Rightarrow>
          if post_deletion_activity \<noteq> [] then
            (case deletion_time of
               VDatetime d \<Rightarrow>
                 Inr [make_anomaly now source_type ''post_deletion_activity''
                        (str_nat (length post_deletion_activity)
                         @ '' events detected after deletion at '' @ strftime_libc d)]
             | _ \<Rightarrow> Inl AttributeError)
          else Inr [])"

definition post_deletion_of_source ::
  "string \<Rightarrow> string \<times> pydict list \<Rightarrow> error + (pydict list \<times> (string \<times> pydict list))" where
  "post_deletion_of_source now item =
     (case py_sort (\<lambda>x. Inr (dict_get x ''parsed_timestamp'' (VDatetime datetime_min))) (snd item) of
        Inl e \<Rightarrow> Inl e
      | Inr evidence_list \<Rightarrow>
          (case map_err (\<lambda>e. dict_index e ''parsed_timestamp'') (filter is_deletion evidence_list) of
             Inl e \<Rightarrow> Inl e
           | Inr deletion_timestamps \<Rightarrow>
               (case map_err (deletion_finding now (fst item) evidence_list) deletion_timestamps of
                  Inl e \<Rightarrow> Inl e
                | Inr findings \<Rightarrow> Inr (concat findings, (fst item, evidence_list)))))"

definition detect_post_deletion_activity ::
  "string \<Rightarrow> evidence_data \<Rightarrow> error + (pydict list \<times> evidence_data)" where
  "detect_post_deletion_activity now evidence_data =
     (case map_err (post_deletion_of_source now) evidence_data of
        Inl e \<Rightarrow> Inl e
      | Inr results \<Rightarrow> Inr (concat (map fst results), map snd results))"

subsection \<open>Future timestamps (\<^verbatim>\<open>detect_temporal_inconsistencies\<close>)\<close>

text \<open>
  \<open>current_time\<close> is the reading of \<^verbatim>\<open>datetime.now()\<close> without its microseconds: a
  parsed instant has none, so it is later than the reading exactly when it is later than
  the reading cut to the second.
\<close>

definition future_finding :: "string \<Rightarrow> datetime \<Rightarrow> string \<Rightarrow> pydict \<Rightarrow> error + pydict list" where
  "future_finding now current_time source_type evidence =
     (case dict_index evidence ''parsed_timestamp'' of Inl e \<Rightarrow> Inl e | Inr event_time \<Rightarrow>
      case py_lt (VDatetime current_time) event_time of Inl e \<Rightarrow> Inl e | Inr future \<Rightarrow>
      if future then
        (case dict_index evidence ''timestamp'' of Inl e \<Rightarrow> Inl e | Inr ts \<Rightarrow>
         Inr [make_anomaly now source_type ''future_timestamp''
                (''Event timestamp '' @ py_str ts @ '' is in the future'')])
      else Inr [])"

definition future_of_source :: "string \<Rightarrow> datetime \<Rightarrow> string \<times> pydict list \<Rightarrow> error + pydict list" where
  "future_of_source now current_time item =
     (case map_err (future_finding now current_time (fst item)) (filter is_valid (snd item)) of
        Inl e \<Rightarrow> Inl e
      | Inr findings \<Rightarrow> Inr (concat findings))"

definition detect_temporal_inconsistencies ::
  "string \<Rightarrow> datetime \<Rightarrow> evidence_data \<Rightarrow> error + pydict list" where
  "detect_temporal_inconsistencies now current_time evidence_data =
     (case map_err (future_of_source now current_time) evidence_data of
        Inl e \<Rightarrow> Inl e
      | Inr per_source \<Rightarrow> Inr (concat per_source))"

subsection \<open>Data integrity (\<^verbatim>\<open>detect_data_inconsistencies\<close>)\<close>

text \<open>
  The duplicate signature is the f-string
  \<^verbatim>\<open>f"{e.get('timestamp', '')}_{e.get('type', '')}_{e.get('details', '')}"\<close>.
\<close>

definition signature_of :: "pydict \<Rightarrow> string" where
  "signature_of evidence =
     py_str (dict_get evidence ''timestamp'' (VStr [])) @ ''_'' @
     py_str (dict_get evidence ''type'' (VStr [])) @ ''_'' @
     py_str (dict_get evidence ''details'' (VStr []))"

text \<open>A \<^verbatim>\<open>Counter\<close>: \<^verbatim>\<open>c[k] += 1\<close> keeps the place of a known key and appends a new one.\<close>

definition counter_incr :: "(string \<times> int) list \<Rightarrow> string \<Rightarrow> (string \<times> int) list" where
  "counter_incr c k =
     (case map_of c k of None \<Rightarrow> c @ [(k, 1)] | Some n \<Rightarrow> AList.update k (n + 1) c)"

definition required_fields :: "string list" where
  "required_fields = [''timestamp'', ''source'', ''type'', ''details'']"

text \<open>\<^verbatim>\<open>str\<close> of a list of plain field names, as an f-string prints it.\<close>

fun join_comma :: "string list \<Rightarrow> string" where
  "join_comma [] = []"
| "join_comma [x] = x"
| "join_comma (x # y # ys) = x @ '', '' @ join_comma (y # ys)"

definition str_of_names :: "string list \<Rightarrow> string" where
  "str_of_names names =
     ''['' @ join_comma (map (\<lambda>f. [CHR 0x27] @ f @ [CHR 0x27]) names) @ '']''"

text \<open>
  The first loop over a source's records: it counts the signatures and appends a
  missing_fields finding for each record that lacks a required field.
\<close>

fun scan_evidence ::
  "string \<Rightarrow> string \<Rightarrow> pydict list \<Rightarrow> (string \<times> int) list \<times> pydict list
     \<Rightarrow> (string \<times> int) list \<times> pydict list" where
  "scan_evidence now source_type [] state = state"
| "scan_evidence now source_type (evidence # rest) (event_signatures, anomalies) =
     (let signature = signature_of evidence;
          missing_fields = filter (\<lambda>field. \<not> dict_has evidence field) required_fields
      in scan_evidence now source_type rest
           (counter_incr event_signatures signature,
            if missing_fields \<noteq> [] then
              anomalies @
              [make_anomaly now source_type ''missing_fields''
                 (''Missing required fields: '' @ str_of_names missing_fields @ '' in event ''
                  @ py_str (dict_get evidence ''timestamp'' (VStr ''unknown'')))]
            else anomalies))"

definition duplicate_anomaly :: "string \<Rightarrow> string \<Rightarrow> string \<times> int \<Rightarrow> pydict" where
  "duplicate_anomaly now source_type entry =
     make_anomaly now source_type ''duplicate_event''
       (''Duplicate event detected '' @ str_int (snd entry) @ '' times: ''
        @ take 50 (fst entry) @ ''...'')"

definition report_duplicates :: "string \<Rightarrow> string \<Rightarrow> (string \<times> int) list \<Rightarrow> pydict list" where
  "report_duplicates now source_type event_signatures =
     map (duplicate_anomaly now source_type) (filter (\<lambda>entry. snd entry > 1) event_signatures)"

definition data_inconsistencies_of_source :: "string \<Rightarrow> string \<times> pydict list \<Rightarrow> pydict list" where
  "data_inconsistencies_of_source now item =
     (let state = scan_evidence now (fst item) (snd item) ([], [])
      in snd state @ report_duplicates now (fst item) (fst state))"

definition detect_data_inconsistencies :: "string \<Rightarrow> evidence_data \<Rightarrow> pydict list" where
  "detect_data_inconsistencies now evidence_data =
     concat (map (data_inconsistencies_of_source now) evidence_data)"

section \<open>Timeline merger (\<^verbatim>\<open>build_unified_timeline\<close>)\<close>

text \<open>
  The evidence files are read in a fixed order. The file system is the association list
  \<open>fs\<close> from a path to the list of records that \<^verbatim>\<open>json.load\<close> returns; a path without
  an entry is a file that does not exist or whose loading raises (the source is then
  skipped).
\<close>

definition evidence_files :: "(string \<times> string) list" where
  "evidence_files =
     [(''../evidence/processed/sms.json'', ''SMS''),
      (''../evidence/processed/calls.json'', ''CALL''),
      (''../evidence/processed/media.json'', ''MEDIA''),
      (''../evidence/processed/apps.json'', ''APP'')]"

definition add_source :: "string \<Rightarrow> pydict \<Rightarrow> pydict" where
  "add_source source event =
     (if dict_has event ''source'' then event else dict_set event ''source'' (VStr source))"

definition load_events :: "(string \<times> pydict list) list \<Rightarrow> string \<times> string \<Rightarrow> pydict list" where
  "load_events fs evidence_file =
     (case map_of fs (fst evidence_file) of
        None \<Rightarrow> []
      | Some events \<Rightarrow> map (add_source (snd evidence_file)) events)"

definition load_all_events :: "(string \<times> pydict list) list \<Rightarrow> pydict list" where
  "load_all_events fs = concat (map (load_events fs) evidence_files)"

text \<open>
  \<^verbatim>\<open>sorted(events, key=lambda x: x.get('timestamp', ''))\<close> inside \<^verbatim>\<open>try\<close>; when a
  comparison raises, the events are returned as they came.
\<close>

definition sort_events_chronologically :: "pydict list \<Rightarrow> pydict list" where
  "sort_events_chronologically events =
     (case py_sort (\<lambda>x. Inr (dict_get x ''timestamp'' (VStr []))) events of
        Inl e \<Rightarrow> events
      | Inr sorted_events \<Rightarrow> sorted_events)"

definition add_timeline_order :: "pydict list \<Rightarrow> pydict list" where
  "add_timeline_order sorted_events =
     map (\<lambda>(i, event). dict_set event ''timeline_order'' (VInt (int i + 1)))
       (enumerate 0 sorted_events)"

definition build_unified_timeline :: "(string \<times> pydict list) list \<Rightarrow> pydict list" where
  "build_unified_timeline fs =
     add_timeline_order (sort_events_chronologically (load_all_events fs))"

section \<open>Persisting the report (\<^verbatim>\<open>save_anomaly_report\<close>)\<close>

text \<open>
  \<^verbatim>\<open>open(output_file, 'w')\<close> truncates the file, \<^verbatim>\<open>json.dump\<close> writes the report's text
  piece by piece (\<open>chunks\<close>) into it, and any exception is caught and printed, so the
  function always returns. What the environment does is the \<open>write_outcome\<close>: opening
  fails, or the first \<open>k\<close> pieces reach the file before a write fails, or every piece
  is written. The files are an association list from path to content.
\<close>

datatype write_outcome = OpenFails | WriteFails nat | WriteOk

definition save_anomaly_report ::
  "string list \<Rightarrow> string \<Rightarrow> write_outcome \<Rightarrow> (string \<times> string) list
     \<Rightarrow> (string \<times> string) list" where
  "save_anomaly_report chunks output_file outcome files =
     (case outcome of
        OpenFails \<Rightarrow> files
      | WriteFails k \<Rightarrow> AList.update output_file (concat (take k chunks)) files
      | WriteOk \<Rightarrow> AList.update output_file (concat chunks) files)"

section \<open>Specification-level notions used by the properties\<close>

text \<open>
  The normalizer as the specification words it: the timestamp field is parsed when it is
  present (and a text); the record is tagged valid with the parsed instant when that
  succeeds, and tagged invalid with no instant otherwise.
\<close>

definition timestamp_is_text :: "pydict \<Rightarrow> bool" where
  "timestamp_is_text e =
     (case map_of e ''timestamp'' of None \<Rightarrow> True | Some (VStr s) \<Rightarrow> True | Some _ \<Rightarrow> False)"

definition parse_timestamp :: "pydict \<Rightarrow> datetime option" where
  "parse_timestamp e =
     (case map_of e ''timestamp'' of Some (VStr s) \<Rightarrow> strptime s | _ \<Rightarrow> None)"

definition normalized_record :: "pydict \<Rightarrow> pydict" where
  "normalized_record e =
     (case parse_timestamp e of Some d \<Rightarrow> mark_valid e d | None \<Rightarrow> mark_invalid e)"

text \<open>
  The text by which the timeline is ordered, and the order relation the specification
  states between an earlier and a later timeline event: both unparsable, or both parsed
  and not decreasing, or a parsed one before an unparsable one.
\<close>

definition raw_timestamp :: "pydict \<Rightarrow> string" where
  "raw_timestamp e = (case map_of e ''timestamp'' of Some (VStr s) \<Rightarrow> s | _ \<Rightarrow> [])"

definition claimed_order :: "pydict \<Rightarrow> pydict \<Rightarrow> bool" where
  "claimed_order a b =
     (case (parse_timestamp a, parse_timestamp b) of
        (Some x, Some y) \<Rightarrow> dt_tuple x \<le> dt_tuple y
      | (Some x, None) \<Rightarrow> True
      | (None, Some y) \<Rightarrow> False
      | (None, None) \<Rightarrow> True)"

text \<open>A record whose timestamp is the canonical zero-padded text of the instant \<open>d\<close>.\<close>

definition canonical_at :: "pydict \<Rightarrow> datetime \<Rightarrow> bool" where
  "canonical_at e d =
     (map_of e ''timestamp'' = Some (VStr (strftime d))
      \<and> datetime_new (dt_year d) (dt_month d) (dt_day d) (dt_hour d) (dt_minute d) (dt_second d)
          = Some d)"

text \<open>
  The gap rule as the specification words it, with the threshold as the code compares it:
  the valid records of a source in ascending order of their parsed instants, and one
  finding for each consecutive pair that lies more than 24 hours apart. \<open>well_normalized\<close>
  is what the normalizer guarantees of a record it tags valid.
\<close>

definition parsed_of :: "pydict \<Rightarrow> datetime" where
  "parsed_of e =
     (case map_of e ''parsed_timestamp'' of Some (VDatetime d) \<Rightarrow> d | _ \<Rightarrow> datetime_min)"

definition well_normalized :: "pydict \<Rightarrow> bool" where
  "well_normalized e =
     (is_valid e \<longrightarrow>
        map_of e ''parsed_timestamp'' = Some (VDatetime (parsed_of e))
        \<and> map_of e ''timestamp'' \<noteq> None)"

definition gap_pairs :: "pydict list \<Rightarrow> (pydict \<times> pydict) list" where
  "gap_pairs sorted_evidence =
     filter (\<lambda>pair. dt_sub (parsed_of (snd pair)) (parsed_of (fst pair)) > 24 * 3600)
       (zip sorted_evidence (tl sorted_evidence))"

definition gap_finding :: "string \<Rightarrow> string \<Rightarrow> pydict \<times> pydict \<Rightarrow> pydict" where
  "gap_finding now source_type pair =
     make_anomaly now source_type ''timestamp_gap''
       (''Gap of '' @ str_int (dt_sub (parsed_of (snd pair)) (parsed_of (fst pair)) div 86400)
        @ '' days detected between '' @ py_str (dict_get (fst pair) ''timestamp'' VNone)
        @ '' and '' @ py_str (dict_get (snd pair) ''timestamp'' VNone))"

definition expected_gaps :: "string \<Rightarrow> string \<times> pydict list \<Rightarrow> pydict list" where
  "expected_gaps now item =
     map (gap_finding now (fst item))
       (gap_pairs (sort_key (\<lambda>x. dt_tuple (parsed_of x)) (filter is_valid (snd item))))"

text \<open>The first two steps of \<^verbatim>\<open>main\<close>: normalize, then run the gap rule.\<close>

definition gaps_of_raw :: "string \<Rightarrow> evidence_data \<Rightarrow> error + pydict list" where
  "gaps_of_raw now evidence_data =
     (case normalize_timestamps evidence_data of
        Inl e \<Rightarrow> Inl e
      | Inr normalized_data \<Rightarrow> detect_timestamp_gaps now normalized_data)"

definition has_gap_finding :: "error + pydict list \<Rightarrow> bool" where
  "has_gap_finding result =
     (case result of
        Inl e \<Rightarrow> False
      | Inr anomalies \<Rightarrow> list_ex (\<lambda>a. map_of a ''type'' = Some (VStr ''timestamp_gap'')) anomalies)"

text \<open>
  The duplicate rule as the specification words it: the distinct signatures of a source
  in order of first occurrence, and one finding, carrying the number of occurrences, for
  each signature that occurs more than once.
\<close>

definition first_occurrences :: "'a list \<Rightarrow> 'a list" where
  "first_occurrences xs = rev (remdups (rev xs))"

definition is_duplicate_finding :: "pydict \<Rightarrow> bool" where
  "is_duplicate_finding a = (map_of a ''type'' = Some (VStr ''duplicate_event''))"

definition expected_duplicates :: "string \<Rightarrow> string \<times> pydict list \<Rightarrow> pydict list" where
  "expected_duplicates now item =
     (let signatures = map signature_of (snd item)
      in map (\<lambda>s. duplicate_anomaly now (fst item) (s, int (count_list signatures s)))
           (filter (\<lambda>s. count_list signatures s > 1) (first_occurrences signatures)))"

text \<open>
  The steps of \<^verbatim>\<open>main\<close> up to the post-deletion rule: normalize, then run the rule on
  the normalized evidence.
\<close>

definition post_deletion_of_raw ::
  "string \<Rightarrow> evidence_data \<Rightarrow> error + (pydict list \<times> evidence_data)" where
  "post_deletion_of_raw now evidence_data =
     (case normalize_timestamps evidence_data of
        Inl e \<Rightarrow> Inl e
      | Inr normalized_data \<Rightarrow> detect_post_deletion_activity now normalized_data)"

text \<open>
  Atomic persistence as the specification states it: after the call the report file
  holds the complete report, or it is as it was before.
\<close>

definition atomic_save ::
  "string list \<Rightarrow> string \<Rightarrow> (string \<times> string) list \<Rightarrow> (string \<times> string) list \<Rightarrow> bool" where
  "atomic_save chunks output_file before after =
     (map_of after output_file = Some (concat chunks)
      \<or> map_of after output_file = map_of before output_file)"

text \<open>
  The kinds of values that compare with one another: texts, numbers, datetimes.
  \<^verbatim>\<open>None\<close> is of no kind.
\<close>

fun kind_of :: "pyval \<Rightarrow> nat option" where
  "kind_of VNone = None"
| "kind_of (VStr s) = Some 0"
| "kind_of (VInt i) = Some 1"
| "kind_of (VBool b) = Some 1"
| "kind_of (VDatetime d) = Some 2"

section \<open>Properties of the severity classifier\<close>

lemma count_severities_acc:
  "count_severities anomalies sc t =
     sc t + int (length (filter (\<lambda>a. anomaly_severity a = t) anomalies))"
  by (induction anomalies arbitrary: sc) (simp_all add: Let_def)

lemma anomaly_severity_table:
  "anomaly_severity anomaly =
     (case map_of anomaly ''type'' of
        Some (VStr ty) \<Rightarrow>
          (if ty = ''future_timestamp'' then CRITICAL
           else if ty = ''post_deletion_activity'' then HIGH
           else if ty = ''timestamp_gap'' then MEDIUM
           else if ty = ''missing_fields'' then MEDIUM
           else if ty = ''duplicate_event'' then LOW
           else LOW)
      | _ \<Rightarrow> LOW)"
  by (simp add: anomaly_severity_def dict_get_def severity_weights_def
           split: option.splits pyval.splits)

text \<open>
  Claim C7. The classifier maps every anomaly by the fixed table (future_timestamp to
  CRITICAL, post_deletion_activity to HIGH, timestamp_gap and missing_fields to MEDIUM,
  duplicate_event and every other or missing type to LOW) and returns, for each tier, the
  number of anomalies of that tier, together with the total number of anomalies and the
  CRITICAL and HIGH counts.
\<close>

theorem calculate_anomaly_severity_counts:
  "anomaly_severity anomaly =
     (case map_of anomaly ''type'' of
        Some (VStr ty) \<Rightarrow>
          (if ty = ''future_timestamp'' then CRITICAL
           else if ty = ''post_deletion_activity'' then HIGH
           else if ty = ''timestamp_gap'' then MEDIUM
           else if ty = ''missing_fields'' then MEDIUM
           else if ty = ''duplicate_event'' then LOW
           else LOW)
      | _ \<Rightarrow> LOW)
   \<and> severity_distribution (calculate_anomaly_severity anomalies) t =
       int (length (filter (\<lambda>a. anomaly_severity a = t) anomalies))
   \<and> total_anomalies (calculate_anomaly_severity anomalies) = int (length anomalies)
   \<and> critical_anomalies (calculate_anomaly_severity anomalies) =
       int (length (filter (\<lambda>a. anomaly_severity a = CRITICAL) anomalies))
   \<and> high_anomalies (calculate_anomaly_severity anomalies) =
       int (length (filter (\<lambda>a. anomaly_severity a = HIGH) anomalies))"
  using anomaly_severity_table [of anomaly]
  by (simp add: calculate_anomaly_severity_def Let_def count_severities_acc)

text \<open>
  The spec's example: one future_timestamp and two timestamp_gap findings give
  CRITICAL 1, MEDIUM 2, HIGH 0, LOW 0 and total 3.
\<close>

theorem calculate_anomaly_severity_counts_witness:
  "(let findings =
         [[(''type'', VStr ''future_timestamp'')],
          [(''type'', VStr ''timestamp_gap'')],
          [(''type'', VStr ''timestamp_gap'')]];
        r = calculate_anomaly_severity findings
    in severity_distribution r CRITICAL = 1 \<and> severity_distribution r MEDIUM = 2
       \<and> severity_distribution r HIGH = 0 \<and> severity_distribution r LOW = 0
       \<and> total_anomalies r = 3)"
proof -
  let ?f = "[[(''type'', VStr ''future_timestamp'')],
             [(''type'', VStr ''timestamp_gap'')],
             [(''type'', VStr ''timestamp_gap'')]]"
  have sev: "map anomaly_severity ?f = [CRITICAL, MEDIUM, MEDIUM]"
    by (simp add: anomaly_severity_table)
  have cnt: "length (filter (\<lambda>a. anomaly_severity a = t) ?f)
               = length (filter (\<lambda>s. s = t) (map anomaly_severity ?f))" for t
    by (simp only: filter_map length_map comp_def)
  show ?thesis
    using calculate_anomaly_severity_counts [of "[]" ?f CRITICAL]
          calculate_anomaly_severity_counts [of "[]" ?f MEDIUM]
          calculate_anomaly_severity_counts [of "[]" ?f HIGH]
          calculate_anomaly_severity_counts [of "[]" ?f LOW]
    unfolding cnt sev Let_def
    by simp
qed

section \<open>Properties of dictionaries and of loops that may raise\<close>

lemma map_of_dict_set: "map_of (dict_set d k v) = (map_of d)(k \<mapsto> v)"
  by (simp add: dict_set_def update_conv')

lemma map_err_all_Inr:
  "(\<And>x. x \<in> set xs \<Longrightarrow> f x = Inr (g x)) \<Longrightarrow> map_err f xs = Inr (map g xs)"
  by (induction xs) simp_all

lemma map_err_length: "map_err f xs = Inr ys \<Longrightarrow> length ys = length xs"
  by (induction xs arbitrary: ys) (auto split: sum.splits)

section \<open>Properties of the timestamp normalizer\<close>

lemma normalize_record_text:
  "timestamp_is_text e \<Longrightarrow> normalize_record e = Inr (normalized_record e)"
  by (auto simp: timestamp_is_text_def normalize_record_def normalized_record_def
        parse_timestamp_def split: option.splits pyval.splits)

lemma normalized_record_valid_flag:
  "map_of (normalized_record e) ''timestamp_valid'' = Some (VBool (parse_timestamp e \<noteq> None))"
  by (simp add: normalized_record_def mark_valid_def mark_invalid_def map_of_dict_set
        split: option.splits)

lemma normalized_record_parsed:
  "map_of (normalized_record e) ''parsed_timestamp'' =
     Some (case parse_timestamp e of Some d \<Rightarrow> VDatetime d | None \<Rightarrow> VNone)"
  by (simp add: normalized_record_def mark_valid_def mark_invalid_def map_of_dict_set
        split: option.splits)

lemma normalized_record_other:
  "k \<noteq> ''timestamp_valid'' \<Longrightarrow> k \<noteq> ''parsed_timestamp'' \<Longrightarrow>
     map_of (normalized_record e) k = map_of e k"
  by (simp add: normalized_record_def mark_valid_def mark_invalid_def map_of_dict_set
        split: option.splits)

lemma normalize_source_text:
  "(\<And>e. e \<in> set (snd item) \<Longrightarrow> timestamp_is_text e) \<Longrightarrow>
     normalize_source item = Inr (fst item, map normalized_record (snd item))"
  by (simp add: normalize_source_def map_err_all_Inr [where g = normalized_record]
        normalize_record_text)

text \<open>
  On an evidence mapping whose timestamp fields are texts where present, the normalizer
  returns, for every source and in place of every record, the record normalized on its
  own (so the result for a record depends on that record only, and every list keeps its
  length): the validity tag is true exactly when the timestamp field parses, the parsed
  instant is stored on success and is \<^verbatim>\<open>None\<close>, the absent value, on failure (wrong
  format or missing field), and every other field is retained unchanged.
\<close>

theorem normalize_timestamps_per_record:
  "((\<forall>item \<in> set evidence_data. \<forall>e \<in> set (snd item). timestamp_is_text e) \<longrightarrow>
      normalize_timestamps evidence_data =
        Inr (map (\<lambda>item. (fst item, map normalized_record (snd item))) evidence_data))
   \<and> length (map normalized_record evidence_list) = length evidence_list
   \<and> map_of (normalized_record e) ''timestamp_valid'' = Some (VBool (parse_timestamp e \<noteq> None))
   \<and> map_of (normalized_record e) ''parsed_timestamp'' =
       Some (case parse_timestamp e of Some d \<Rightarrow> VDatetime d | None \<Rightarrow> VNone)
   \<and> (\<forall>k. k \<noteq> ''timestamp_valid'' \<and> k \<noteq> ''parsed_timestamp'' \<longrightarrow>
          map_of (normalized_record e) k = map_of e k)"
proof -
  have "normalize_timestamps evidence_data =
          Inr (map (\<lambda>item. (fst item, map normalized_record (snd item))) evidence_data)"
    if "\<forall>item \<in> set evidence_data. \<forall>e \<in> set (snd item). timestamp_is_text e"
    unfolding normalize_timestamps_def
    by (rule map_err_all_Inr) (use that in \<open>simp add: normalize_source_text\<close>)
  then show ?thesis
    by (simp add: normalized_record_valid_flag normalized_record_parsed normalized_record_other)
qed

lemma strptime_example_valid:
  "strptime ''2023-06-01 14:22:03'' = Some (Datetime 2023 6 1 14 22 3)"
  by (simp add: strptime_def is_digit_def in_range_def digit_val_def num2_def
        datetime_new_def days_in_month_def is_space_def)

lemma strptime_example_invalid: "strptime ''Unknown'' = None"
  by (simp add: strptime_def is_digit_def in_range_def)

text \<open>
  A source with a well-formed, a malformed and a missing timestamp, and an empty source.
\<close>

theorem normalize_timestamps_per_record_witness:
  "(let evidence_data =
         [(''SMS'',
           [[(''timestamp'', VStr ''2023-06-01 14:22:03''), (''source'', VStr ''SMS'')],
            [(''timestamp'', VStr ''Unknown''), (''source'', VStr ''SMS'')],
            [(''source'', VStr ''SMS'')]]),
          (''CALL'', [])]
    in (\<forall>item \<in> set evidence_data. \<forall>e \<in> set (snd item). timestamp_is_text e)
       \<and> normalize_timestamps evidence_data =
           Inr [(''SMS'',
                 [[(''timestamp'', VStr ''2023-06-01 14:22:03''), (''source'', VStr ''SMS''),
                   (''parsed_timestamp'', VDatetime (Datetime 2023 6 1 14 22 3)),
                   (''timestamp_valid'', VBool True)],
                  [(''timestamp'', VStr ''Unknown''), (''source'', VStr ''SMS''),
                   (''timestamp_valid'', VBool False), (''parsed_timestamp'', VNone)],
                  [(''source'', VStr ''SMS''),
                   (''timestamp_valid'', VBool False), (''parsed_timestamp'', VNone)]]),
                (''CALL'', [])])"
  using normalize_timestamps_per_record
          [of "[(''SMS'',
                 [[(''timestamp'', VStr ''2023-06-01 14:22:03''), (''source'', VStr ''SMS'')],
                  [(''timestamp'', VStr ''Unknown''), (''source'', VStr ''SMS'')],
                  [(''source'', VStr ''SMS'')]]),
                (''CALL'', [])]" "[]" "[]"]
  by (simp add: timestamp_is_text_def normalized_record_def parse_timestamp_def
        strptime_example_valid strptime_example_invalid mark_valid_def mark_invalid_def
        dict_set_def)

text \<open>
  A timestamp field that is present and not a text (\<^verbatim>\<open>null\<close>, a number or a truth value
  in the evidence file) makes the parser raise \<^verbatim>\<open>TypeError\<close>, which the handler of the
  loop body does not list: the record is not tagged invalid, and the exception leaves the
  normalizer, whatever the other records and sources are.
\<close>

lemma normalize_record_non_text:
  "\<not> timestamp_is_text e \<Longrightarrow> normalize_record e = Inl TypeError"
  by (auto simp: timestamp_is_text_def normalize_record_def split: option.splits pyval.splits)

lemma normalize_record_error: "normalize_record e = Inl err \<Longrightarrow> err = TypeError"
  by (auto simp: normalize_record_def split: option.splits pyval.splits)

lemma map_err_raises:
  "x \<in> set xs \<Longrightarrow> f x = Inl err \<Longrightarrow>
   (\<And>y err'. y \<in> set xs \<Longrightarrow> f y = Inl err' \<Longrightarrow> err' = err) \<Longrightarrow>
   map_err f xs = Inl err"
proof (induction xs)
  case Nil
  then show ?case by simp
next
  case (Cons a xs)
  show ?case
  proof (cases "f a")
    case (Inl err')
    then have "err' = err" using Cons.prems(3) [of a err'] by simp
    with Inl show ?thesis by simp
  next
    case (Inr b)
    with Cons.prems(1,2) have "x \<in> set xs" by auto
    then have "map_err f xs = Inl err"
      using Cons.prems(2,3) by (intro Cons.IH) auto
    with Inr show ?thesis by simp
  qed
qed

lemma normalize_source_error: "normalize_source item = Inl err \<Longrightarrow> err = TypeError"
proof -
  assume a: "normalize_source item = Inl err"
  have "\<exists>e \<in> set xs. normalize_record e = Inl err" if "map_err normalize_record xs = Inl err" for xs
    using that by (induction xs) (auto split: sum.splits)
  with a show ?thesis
    by (auto simp: normalize_source_def split: sum.splits dest: normalize_record_error)
qed

lemma normalize_timestamps_non_text:
  assumes "item \<in> set evidence_data" and "e \<in> set (snd item)" and "\<not> timestamp_is_text e"
  shows "normalize_timestamps evidence_data = Inl TypeError"
proof -
  have "map_err normalize_record (snd item) = Inl TypeError"
    using assms(2) normalize_record_non_text [OF assms(3)]
    by (rule map_err_raises) (rule normalize_record_error)
  then have "normalize_source item = Inl TypeError"
    by (simp add: normalize_source_def)
  with assms(1) show ?thesis
    unfolding normalize_timestamps_def
    by (rule map_err_raises) (rule normalize_source_error)
qed

text \<open>
  Claim C8, on the code. The claim asks that every record whose timestamp fails to parse
  be kept and tagged invalid, and that no record be discarded. On an evidence mapping
  with one well-formed record and one record whose timestamp field is \<^verbatim>\<open>null\<close>, followed
  by a second source, the normalizer returns no mapping at all: the \<^verbatim>\<open>TypeError\<close> of the
  parser escapes it.
\<close>

theorem normalize_timestamps_raises_on_null:
  "normalize_timestamps
     [(''SMS'',
       [[(''timestamp'', VStr ''2023-06-01 14:22:03''), (''source'', VStr ''SMS''),
         (''type'', VStr ''incoming''), (''details'', VStr ''hello'')],
        [(''timestamp'', VNone), (''source'', VStr ''SMS''),
         (''type'', VStr ''incoming''), (''details'', VStr ''again'')]]),
      (''CALL'',
       [[(''timestamp'', VStr ''2023-06-01 15:00:00''), (''source'', VStr ''CALL''),
         (''type'', VStr ''outgoing''), (''details'', VStr ''call'')]])]
   = Inl TypeError"
  by code_simp
section \<open>Properties of sorting\<close>

lemma py_insort_key_length:
  "py_insort_key f x ys = Inr zs \<Longrightarrow> length zs = Suc (length ys)"
  by (induction ys arbitrary: zs) (auto split: sum.splits if_splits)

lemma py_sorted_length: "py_sorted f xs = Inr ys \<Longrightarrow> length ys = length xs"
  by (induction xs arbitrary: ys) (auto split: sum.splits dest: py_insort_key_length)

lemma py_sort_length: "py_sort key xs = Inr ys \<Longrightarrow> length ys = length xs"
  by (auto simp: py_sort_def split: sum.splits dest!: py_sorted_length map_err_length)

text \<open>
  Where the comparison of the keys agrees with a linear order, the sort is the stable
  insertion sort of the library.
\<close>

lemma py_insort_key_linorder:
  fixes g :: "'a \<Rightarrow> 'k::linorder"
  assumes "\<And>y. y \<in> set ys \<Longrightarrow> py_lt (f y) (f x) = Inr (g y < g x)"
  shows "py_insort_key f x ys = Inr (insort_key g x ys)"
  using assms by (induction ys) (auto simp: not_less)

lemma py_sorted_linorder:
  fixes g :: "'a \<Rightarrow> 'k::linorder"
  assumes "\<And>a b. a \<in> set xs \<Longrightarrow> b \<in> set xs \<Longrightarrow> py_lt (f a) (f b) = Inr (g a < g b)"
  shows "py_sorted f xs = Inr (sort_key g xs)"
  using assms
proof (induction xs)
  case Nil
  show ?case by simp
next
  case (Cons x xs)
  have "py_sorted f xs = Inr (sort_key g xs)"
    by (rule Cons.IH) (simp add: Cons.prems)
  moreover have "py_insort_key f x (sort_key g xs) = Inr (insort_key g x (sort_key g xs))"
    by (rule py_insort_key_linorder) (simp add: Cons.prems)
  ultimately show ?case by simp
qed

lemma insort_key_tagged:
  "insort_key (\<lambda>p. g (snd p)) (k x, x) (map (\<lambda>x. (k x, x)) ys) =
     map (\<lambda>x. (k x, x)) (insort_key g x ys)"
  by (induction ys) simp_all

lemma sort_key_tagged:
  "sort_key (\<lambda>p. g (snd p)) (map (\<lambda>x. (k x, x)) xs) = map (\<lambda>x. (k x, x)) (sort_key g xs)"
  by (induction xs) (simp_all add: insort_key_tagged)

lemma zip_map_self: "zip (map k xs) xs = map (\<lambda>x. (k x, x)) xs"
  by (induction xs) simp_all

lemma py_sort_linorder:
  fixes g :: "'a \<Rightarrow> 'k::linorder"
  assumes key: "\<And>x. x \<in> set xs \<Longrightarrow> key x = Inr (k x)"
    and lt: "\<And>a b. a \<in> set xs \<Longrightarrow> b \<in> set xs \<Longrightarrow> py_lt (k a) (k b) = Inr (g a < g b)"
  shows "py_sort key xs = Inr (sort_key g xs)"
proof -
  have keys: "map_err key xs = Inr (map k xs)"
    by (rule map_err_all_Inr) (rule key)
  have "py_sorted fst (map (\<lambda>x. (k x, x)) xs) =
          Inr (sort_key (\<lambda>p. g (snd p)) (map (\<lambda>x. (k x, x)) xs))"
    by (rule py_sorted_linorder) (auto simp: lt)
  then show ?thesis
    by (simp add: py_sort_def keys zip_map_self sort_key_tagged comp_def)
qed

text \<open>
  When the sort raises does not depend on the order of the comparisons: a list of two or
  more elements sorts without exception exactly when all its keys are of one kind.
\<close>

lemma py_lt_kind:
  "(\<exists>r. py_lt a b = Inr r) = (\<exists>k. kind_of a = Some k \<and> kind_of b = Some k)"
  by (cases a; cases b) simp_all

lemma py_insort_key_set:
  "py_insort_key f x ys = Inr zs \<Longrightarrow> set zs = insert x (set ys)"
proof (induction ys arbitrary: zs)
  case Nil
  then show ?case by auto
next
  case (Cons y ys)
  show ?case
  proof (cases "py_lt (f y) (f x)")
    case (Inl e)
    with Cons.prems show ?thesis by simp
  next
    case (Inr lt)
    show ?thesis
    proof (cases lt)
      case True
      with Inr Cons.prems obtain zs' where zs': "py_insort_key f x ys = Inr zs'" "zs = y # zs'"
        by (cases "py_insort_key f x ys") auto
      from Cons.IH [OF zs'(1)] zs'(2) show ?thesis by auto
    next
      case False
      with Inr Cons.prems show ?thesis by auto
    qed
  qed
qed

lemma py_sorted_set: "py_sorted f xs = Inr ys \<Longrightarrow> set ys = set xs"
proof (induction xs arbitrary: ys)
  case Nil
  then show ?case by simp
next
  case (Cons x xs)
  then obtain zs where zs: "py_sorted f xs = Inr zs" "py_insort_key f x zs = Inr ys"
    by (cases "py_sorted f xs") auto
  from py_insort_key_set [OF zs(2)] Cons.IH [OF zs(1)] show ?case by simp
qed

lemma py_insort_key_same_kind:
  assumes "\<And>y. y \<in> set ys \<Longrightarrow> kind_of (f y) = Some k" and "kind_of (f x) = Some k"
  shows "\<exists>zs. py_insort_key f x ys = Inr zs"
  using assms
proof (induction ys)
  case Nil
  show ?case by simp
next
  case (Cons y ys)
  have "\<exists>r. py_lt (f y) (f x) = Inr r"
    using Cons.prems by (simp add: py_lt_kind)
  moreover have "\<exists>zs. py_insort_key f x ys = Inr zs"
    using Cons by simp
  ultimately show ?case
    by auto
qed

lemma py_sorted_same_kind:
  assumes "\<And>x. x \<in> set xs \<Longrightarrow> kind_of (f x) = Some k"
  shows "\<exists>ys. py_sorted f xs = Inr ys"
  using assms
proof (induction xs)
  case Nil
  show ?case by simp
next
  case (Cons x xs)
  then obtain zs where zs: "py_sorted f xs = Inr zs"
    by auto
  then have "set zs = set xs"
    by (rule py_sorted_set)
  then have "\<exists>ys. py_insort_key f x zs = Inr ys"
    using Cons.prems by (intro py_insort_key_same_kind [where k = k]) simp_all
  with zs show ?case
    by auto
qed

lemma py_sorted_one_kind:
  assumes "py_sorted f xs = Inr ys" and "2 \<le> length xs"
  shows "\<exists>k. \<forall>x \<in> set xs. kind_of (f x) = Some k"
  using assms
proof (induction xs arbitrary: ys)
  case Nil
  then show ?case by simp
next
  case (Cons a xs)
  from Cons.prems(1) obtain zs where zs: "py_sorted f xs = Inr zs"
    and ins: "py_insort_key f a zs = Inr ys"
    by (auto split: sum.splits)
  have set_zs: "set zs = set xs"
    using zs by (rule py_sorted_set)
  from Cons.prems(2) have "xs \<noteq> []"
    by auto
  with set_zs obtain z zs' where z: "zs = z # zs'"
    by (cases zs) auto
  with ins have "\<exists>r. py_lt (f z) (f a) = Inr r"
    by (auto split: sum.splits)
  then obtain k where k: "kind_of (f z) = Some k" "kind_of (f a) = Some k"
    by (auto simp: py_lt_kind)
  have "z \<in> set xs"
    using z set_zs by auto
  show ?case
  proof (cases "2 \<le> length xs")
    case True
    from Cons.IH [OF zs True] obtain k' where "\<forall>x \<in> set xs. kind_of (f x) = Some k'"
      by auto
    with \<open>z \<in> set xs\<close> k show ?thesis
      by auto
  next
    case False
    with Cons.prems(2) have "length xs = 1"
      by simp
    with \<open>z \<in> set xs\<close> have "xs = [z]"
      by (auto simp: length_Suc_conv)
    with k show ?thesis
      by auto
  qed
qed

lemma py_sorted_returns_iff:
  "(\<exists>ys. py_sorted f xs = Inr ys) =
     (length xs < 2 \<or> (\<exists>k. \<forall>x \<in> set xs. kind_of (f x) = Some k))"
proof
  assume "\<exists>ys. py_sorted f xs = Inr ys"
  then obtain ys where ys: "py_sorted f xs = Inr ys" ..
  show "length xs < 2 \<or> (\<exists>k. \<forall>x \<in> set xs. kind_of (f x) = Some k)"
  proof (cases "length xs < 2")
    case True
    then show ?thesis ..
  next
    case False
    then have "2 \<le> length xs"
      by simp
    with ys have "\<exists>k. \<forall>x \<in> set xs. kind_of (f x) = Some k"
      by (rule py_sorted_one_kind)
    then show ?thesis ..
  qed
next
  assume "length xs < 2 \<or> (\<exists>k. \<forall>x \<in> set xs. kind_of (f x) = Some k)"
  then show "\<exists>ys. py_sorted f xs = Inr ys"
  proof
    assume "length xs < 2"
    then have "xs = [] \<or> (\<exists>x. xs = [x])"
      by (cases xs) (auto simp: less_Suc_eq numeral_2_eq_2)
    then show ?thesis
      by auto
  next
    assume "\<exists>k. \<forall>x \<in> set xs. kind_of (f x) = Some k"
    then obtain k where "\<forall>x \<in> set xs. kind_of (f x) = Some k" ..
    then show ?thesis
      by (intro py_sorted_same_kind [where k = k]) simp
  qed
qed

section \<open>Properties of the timeline merger\<close>

lemma sort_events_chronologically_length:
  "length (sort_events_chronologically events) = length events"
  by (auto simp: sort_events_chronologically_def split: sum.splits dest: py_sort_length)

lemma add_timeline_order_length: "length (add_timeline_order events) = length events"
  by (simp add: add_timeline_order_def)

lemma add_timeline_order_map:
  "add_timeline_order events =
     map (\<lambda>(i, event). dict_set event ''timeline_order'' (VInt (int i + 1)))
       (zip [0..<length events] events)"
  by (simp add: add_timeline_order_def enumerate_eq_zip)

lemma add_timeline_order_values:
  "map (\<lambda>event. map_of event ''timeline_order'') (add_timeline_order events) =
     map (\<lambda>i. Some (VInt (int i + 1))) [0..<length events]"
proof -
  have "map (\<lambda>event. map_of event ''timeline_order'') (add_timeline_order events) =
          map ((\<lambda>i. Some (VInt (int i + 1))) \<circ> fst) (zip [0..<length events] events)"
    by (simp add: add_timeline_order_map map_of_dict_set case_prod_beta comp_def)
  also have "\<dots> = map (\<lambda>i. Some (VInt (int i + 1))) (map fst (zip [0..<length events] events))"
    by (simp only: map_map)
  also have "\<dots> = map (\<lambda>i. Some (VInt (int i + 1))) [0..<length events]"
    by (simp only: map_fst_zip length_upt diff_zero)
  finally show ?thesis .
qed

lemma load_events_length:
  "length (load_events fs evidence_file) =
     (case map_of fs (fst evidence_file) of None \<Rightarrow> 0 | Some events \<Rightarrow> length events)"
  by (simp add: load_events_def split: option.splits)

lemma load_all_events_length:
  "length (load_all_events fs) =
     (\<Sum>evidence_file \<leftarrow> evidence_files.
        case map_of fs (fst evidence_file) of None \<Rightarrow> 0 | Some events \<Rightarrow> length events)"
  by (simp add: load_all_events_def length_concat comp_def load_events_length)

text \<open>
  Claim C5. The merged timeline has as many events as the evidence files that could be
  loaded hold together (an absent or unreadable file counting zero; records with a
  missing or malformed timestamp are kept), and the \<open>timeline_order\<close> values of the
  timeline, read in order, are exactly 1, 2, ..., N.
\<close>

theorem build_unified_timeline_no_loss:
  "length (build_unified_timeline fs) =
     (\<Sum>evidence_file \<leftarrow> evidence_files.
        case map_of fs (fst evidence_file) of None \<Rightarrow> 0 | Some events \<Rightarrow> length events)
   \<and> map (\<lambda>event. map_of event ''timeline_order'') (build_unified_timeline fs) =
       map (\<lambda>i. Some (VInt (int i))) [1..<Suc (length (build_unified_timeline fs))]"
proof -
  have "map (\<lambda>i. Some (VInt (int i + 1))) [0..<n] = map (\<lambda>i. Some (VInt (int i))) [1..<Suc n]"
    for n
    by (induction n) simp_all
  then show ?thesis
    by (simp add: build_unified_timeline_def add_timeline_order_length
          sort_events_chronologically_length load_all_events_length add_timeline_order_values)
qed

text \<open>
  Two SMS records (the second without a timestamp), no calls file, an empty media file
  and one app record: three events, numbered 1, 2, 3.
\<close>

theorem build_unified_timeline_no_loss_witness:
  "(let fs = [(''../evidence/processed/sms.json'',
               [[(''timestamp'', VStr ''2023-06-02 14:22:03'')], [(''details'', VStr ''x'')]]),
              (''../evidence/processed/media.json'', []),
              (''../evidence/processed/apps.json'', [[(''timestamp'', VStr ''Unknown'')]])]
    in length (build_unified_timeline fs) = 3
       \<and> map (\<lambda>event. map_of event ''timeline_order'') (build_unified_timeline fs) =
           [Some (VInt 1), Some (VInt 2), Some (VInt 3)])"
proof -
  let ?fs = "[(''../evidence/processed/sms.json'',
               [[(''timestamp'', VStr ''2023-06-02 14:22:03'')], [(''details'', VStr ''x'')]]),
              (''../evidence/processed/media.json'', []),
              (''../evidence/processed/apps.json'', [[(''timestamp'', VStr ''Unknown'')]])]"
  note main = build_unified_timeline_no_loss [of ?fs]
  have len: "length (build_unified_timeline ?fs) = 3"
    by (subst conjunct1 [OF main]) (simp add: evidence_files_def)
  have "map (\<lambda>event. map_of event ''timeline_order'') (build_unified_timeline ?fs) =
          map (\<lambda>i. Some (VInt (int i))) [1..<Suc 3]"
    by (subst conjunct2 [OF main]) (simp only: len)
  also have "[1..<Suc 3] = [1, 2, 3]"
    by (simp add: upt_rec)
  finally show ?thesis
    by (simp add: len)
qed

section \<open>Properties of the timestamp texts: printing, parsing and order\<close>

lemma of_char_digit_char: "k < 10 \<Longrightarrow> of_char (digit_char k) = (48 + k :: nat)"
  by (simp add: digit_char_def)

lemma digit_char_eq_iff: "k < 10 \<Longrightarrow> (digit_char k = c) = ((of_char c :: nat) = 48 + k)"
  using of_char_eq_iff [of "digit_char k" c, where ?'a = nat]
  by (auto simp: of_char_digit_char simp del: of_char_eq_iff)

lemma digit_char_le_iff:
  "k < 10 \<Longrightarrow> (c \<le> digit_char k) = ((of_char c :: nat) \<le> 48 + k)"
  "k < 10 \<Longrightarrow> (digit_char k \<le> c) = (48 + k \<le> (of_char c :: nat))"
  by (simp_all add: less_eq_char_def of_char_digit_char)

lemma digit_char_less_iff:
  "j < 10 \<Longrightarrow> k < 10 \<Longrightarrow> (digit_char j < digit_char k) = (j < k)"
  "j < 10 \<Longrightarrow> k < 10 \<Longrightarrow> (digit_char j = digit_char k) = (j = k)"
  by (auto simp: less_char_def of_char_digit_char digit_char_eq_iff)

lemma is_digit_digit_char: "k < 10 \<Longrightarrow> is_digit (digit_char k)"
  by (simp add: is_digit_def in_range_def digit_char_le_iff)

lemma digit_val_digit_char: "k < 10 \<Longrightarrow> digit_val (digit_char k) = k"
  by (simp add: digit_val_def of_char_digit_char)

lemma digit_char_0: "digit_char 0 = CHR ''0''"
  using digit_char_eq_iff [of 0 "CHR ''0''"] by simp

lemma str_nat_small: "n < 10 \<Longrightarrow> str_nat n = [digit_char n]"
  by (simp add: str_nat.simps)

lemma pad2_digits: "n < 100 \<Longrightarrow> pad2 n = [digit_char (n div 10), digit_char (n mod 10)]"
  by (cases "n < 10") (simp_all add: pad2_def str_nat.simps [of n] str_nat_small digit_char_0)

lemma str_nat_2: "10 \<le> n \<Longrightarrow> n < 100 \<Longrightarrow> str_nat n = [digit_char (n div 10), digit_char (n mod 10)]"
  by (simp add: str_nat.simps [of n] str_nat_small)

lemma str_nat_3: "100 \<le> n \<Longrightarrow> n < 1000 \<Longrightarrow>
   str_nat n = [digit_char (n div 100), digit_char (n div 10 mod 10), digit_char (n mod 10)]"
  by (simp add: str_nat.simps [of n] str_nat_2 div_mult2_eq [symmetric])

lemma str_nat_4: "1000 \<le> n \<Longrightarrow> n < 10000 \<Longrightarrow>
   str_nat n = [digit_char (n div 1000), digit_char (n div 100 mod 10), digit_char (n div 10 mod 10), digit_char (n mod 10)]"
  by (simp add: str_nat.simps [of n] str_nat_3 div_mult2_eq [symmetric])

lemma pad4_digits:
  assumes "n < 10000"
  shows "pad4 n = [digit_char (n div 1000), digit_char (n div 100 mod 10),
                   digit_char (n div 10 mod 10), digit_char (n mod 10)]"
proof -
  consider "n < 10" | "10 \<le> n" "n < 100" | "100 \<le> n" "n < 1000" | "1000 \<le> n"
    by linarith
  then show ?thesis
  proof cases
    case 1 then show ?thesis
      by (simp add: pad4_def str_nat_small digit_char_0 numeral_3_eq_3)
  next
    case 2 then show ?thesis
      by (simp add: pad4_def str_nat_2 digit_char_0 numeral_2_eq_2)
  next
    case 3 then show ?thesis
      by (simp add: pad4_def str_nat_3 digit_char_0)
  next
    case 4 then show ?thesis using assms by (simp add: pad4_def str_nat_4)
  qed
qed


lemma pad2_split:
  assumes "n < 100"
  obtains a b where "a < 10" "b < 10" "n = 10 * a + b" "pad2 n = [digit_char a, digit_char b]"
proof
  show "n div 10 < 10" "n mod 10 < 10" "n = 10 * (n div 10) + n mod 10"
    using assms by simp_all
  show "pad2 n = [digit_char (n div 10), digit_char (n mod 10)]"
    using assms by (rule pad2_digits)
qed

lemma decimal_digits:
  "(n::nat) = 1000 * (n div 1000) + 100 * (n div 100 mod 10) + 10 * (n div 10 mod 10) + n mod 10"
proof -
  have 1: "n = 10 * (n div 10) + n mod 10"
    by simp
  have 2: "n div 10 = 10 * (n div 100) + n div 10 mod 10"
    using div_mult2_eq [of n 10 10] by simp
  have 3: "n div 100 = 10 * (n div 1000) + n div 100 mod 10"
    using div_mult2_eq [of n 100 10] by simp
  show ?thesis
    using 1 2 3 by linarith
qed

lemma pad4_split:
  assumes "n < 10000"
  obtains a b c d where "a < 10" "b < 10" "c < 10" "d < 10"
    "n = 1000 * a + 100 * b + 10 * c + d"
    "pad4 n = [digit_char a, digit_char b, digit_char c, digit_char d]"
proof
  show "n div 1000 < 10" "n div 100 mod 10 < 10" "n div 10 mod 10 < 10" "n mod 10 < 10"
    using assms by simp_all
  show "n = 1000 * (n div 1000) + 100 * (n div 100 mod 10) + 10 * (n div 10 mod 10) + n mod 10"
    by (rule decimal_digits)
  show "pad4 n = [digit_char (n div 1000), digit_char (n div 100 mod 10),
                  digit_char (n div 10 mod 10), digit_char (n mod 10)]"
    using assms by (rule pad4_digits)
qed

lemmas digit_simps =
  digit_char_eq_iff digit_char_le_iff in_range_def is_digit_def digit_val_digit_char num2_def


lemma re_Y_pad4: "n < 10000 \<Longrightarrow> re_Y (pad4 n @ r) = Some (n, r)"
proof (erule pad4_split)
  fix a b c d
  assume *: "a < 10" "b < 10" "c < 10" "d < 10"
    and n: "n = 1000 * a + 100 * b + 10 * c + d"
    and p: "pad4 n = [digit_char a, digit_char b, digit_char c, digit_char d]"
  show ?thesis
    unfolding p using * by (simp add: is_digit_digit_char digit_val_digit_char n)
qed

lemma re_m_pad2: "1 \<le> n \<Longrightarrow> n \<le> 12 \<Longrightarrow> re_m (pad2 n @ r) = Some (n, r)"
  by (rule pad2_split [of n]) (simp_all add: digit_simps)

lemma re_d_pad2: "1 \<le> n \<Longrightarrow> n \<le> 31 \<Longrightarrow> re_d (pad2 n @ r) = Some (n, r)"
  by (rule pad2_split [of n]) (simp_all add: digit_simps)

lemma re_H_pad2: "n \<le> 23 \<Longrightarrow> re_H (pad2 n @ r) = Some (n, r)"
  by (rule pad2_split [of n]) (simp_all add: digit_simps)

lemma re_M_pad2: "n \<le> 59 \<Longrightarrow> re_M (pad2 n @ r) = Some (n, r)"
  by (rule pad2_split [of n]) (simp_all add: digit_simps)

lemma re_S_pad2: "n \<le> 59 \<Longrightarrow> re_S (pad2 n @ r) = Some (n, r)"
  by (rule pad2_split [of n]) (simp_all add: digit_simps)


lemma not_space_digit_char: "k < 10 \<Longrightarrow> \<not> is_space (digit_char k)"
  by (auto simp: is_space_def of_char_digit_char)

lemma is_space_blank: "is_space CHR '' ''"
  by (simp add: is_space_def)

lemma re_spaces_pad2: "n < 100 \<Longrightarrow> re_spaces (CHR '' '' # pad2 n @ r) = Some (pad2 n @ r)"
  by (rule pad2_split [of n]) (simp_all add: is_space_blank not_space_digit_char)

lemma datetime_new_Some:
  "datetime_new y m d H M S = Some dt \<Longrightarrow>
     dt = Datetime y m d H M S \<and> 1 \<le> y \<and> y \<le> 9999 \<and> 1 \<le> m \<and> m \<le> 12 \<and> 1 \<le> d \<and> d \<le> 31
     \<and> H \<le> 23 \<and> M \<le> 59 \<and> S \<le> 59"
  by (auto simp: datetime_new_def days_in_month_def split: if_splits)

lemma strptime_strftime:
  assumes "datetime_new (dt_year d) (dt_month d) (dt_day d) (dt_hour d) (dt_minute d) (dt_second d)
             = Some d"
  shows "strptime (strftime d) = Some d"
proof -
  note r = datetime_new_Some [OF assms]
  show ?thesis
    using r assms
    by (simp add: strptime_def strftime_def re_Y_pad4 re_m_pad2 re_d_pad2 re_spaces_pad2
          re_H_pad2 re_M_pad2 re_S_pad2 [where r = "[]", simplified] del: re_spaces.simps)
qed

lemma strftime_libc_four_digits:
  "1000 \<le> dt_year d \<Longrightarrow> dt_year d < 10000 \<Longrightarrow> strftime_libc d = strftime d"
  by (simp add: strftime_libc_def strftime_def pad4_digits str_nat_4)

lemma strftime_libc_example:
  "strftime_libc (Datetime 999 12 31 23 59 59) = ''999-12-31 23:59:59''"
  by code_simp

lemma pad2_le:
  "m < 100 \<Longrightarrow> n < 100 \<Longrightarrow> (pad2 m @ r \<le> pad2 n @ s) = (m < n \<or> m = n \<and> r \<le> s)"
  by (rule pad2_split [of m], simp, rule pad2_split [of n], simp)
     (auto simp: digit_char_less_iff)

lemma pad4_le:
  "m < 10000 \<Longrightarrow> n < 10000 \<Longrightarrow> (pad4 m @ r \<le> pad4 n @ s) = (m < n \<or> m = n \<and> r \<le> s)"
  by (rule pad4_split [of m], simp, rule pad4_split [of n], simp)
     (auto simp: digit_char_less_iff)

lemma strftime_le:
  assumes "datetime_new (dt_year a) (dt_month a) (dt_day a) (dt_hour a) (dt_minute a) (dt_second a)
             = Some a"
    and "datetime_new (dt_year b) (dt_month b) (dt_day b) (dt_hour b) (dt_minute b) (dt_second b)
             = Some b"
  shows "(strftime a \<le> strftime b) = (dt_tuple a \<le> dt_tuple b)"
proof -
  note ra = datetime_new_Some [OF assms(1)] and rb = datetime_new_Some [OF assms(2)]
  have "(strftime a \<le> strftime b) =
          (dt_year a < dt_year b \<or> dt_year a = dt_year b \<and>
           (dt_month a < dt_month b \<or> dt_month a = dt_month b \<and>
            (dt_day a < dt_day b \<or> dt_day a = dt_day b \<and>
             (dt_hour a < dt_hour b \<or> dt_hour a = dt_hour b \<and>
              (dt_minute a < dt_minute b \<or> dt_minute a = dt_minute b \<and>
               dt_second a \<le> dt_second b)))))"
    using ra rb
    by (simp add: strftime_def pad4_le pad2_le pad2_le [where r = "[]" and s = "[]", simplified])
       auto
  also have "\<dots> = (dt_tuple a \<le> dt_tuple b)"
    by (auto simp: dt_tuple_def)
  finally show ?thesis .
qed

section \<open>Order of the merged timeline\<close>

lemma add_source_timestamp: "map_of (add_source source e) ''timestamp'' = map_of e ''timestamp''"
  by (simp add: add_source_def map_of_dict_set)

lemma add_source_text: "timestamp_is_text (add_source source e) = timestamp_is_text e"
  by (simp add: timestamp_is_text_def add_source_timestamp)

lemma load_all_events_text:
  assumes hyp: "\<And>file events e. map_of fs file = Some events \<Longrightarrow> e \<in> set events \<Longrightarrow> timestamp_is_text e"
    and mem: "e \<in> set (load_all_events fs)"
  shows "timestamp_is_text e"
proof -
  from mem obtain ef where "e \<in> set (load_events fs ef)"
    by (auto simp: load_all_events_def)
  then obtain events x where "map_of fs (fst ef) = Some events" "x \<in> set events"
      "e = add_source (snd ef) x"
    by (cases "map_of fs (fst ef)") (auto simp: load_events_def)
  then show ?thesis
    using hyp [of "fst ef" events x] by (simp add: add_source_text)
qed

lemma text_key:
  "timestamp_is_text e \<Longrightarrow> dict_get e ''timestamp'' (VStr []) = VStr (raw_timestamp e)"
  by (auto simp: timestamp_is_text_def dict_get_def raw_timestamp_def
        split: option.splits pyval.splits)

lemma sort_events_chronologically_text:
  assumes "\<And>e. e \<in> set events \<Longrightarrow> timestamp_is_text e"
  shows "sort_events_chronologically events = sort_key raw_timestamp events"
proof -
  have "py_sort (\<lambda>x. Inr (dict_get x ''timestamp'' (VStr []))) events =
          Inr (sort_key raw_timestamp events)"
    by (rule py_sort_linorder [where k = "\<lambda>x. dict_get x ''timestamp'' (VStr [])"])
       (simp_all add: text_key assms)
  then show ?thesis
    by (simp add: sort_events_chronologically_def)
qed

lemma add_timeline_order_raw:
  "map raw_timestamp (add_timeline_order events) = map raw_timestamp events"
proof -
  have "map raw_timestamp (add_timeline_order events) =
          map (raw_timestamp \<circ> snd) (zip [0..<length events] events)"
    by (simp add: add_timeline_order_map raw_timestamp_def map_of_dict_set case_prod_beta comp_def)
  also have "\<dots> = map raw_timestamp (map snd (zip [0..<length events] events))"
    by (simp only: map_map)
  also have "\<dots> = map raw_timestamp events"
    by (simp only: map_snd_zip length_upt diff_zero)
  finally show ?thesis .
qed

lemma canonical_at_parse:
  "canonical_at e d \<Longrightarrow> parse_timestamp e = Some d \<and> raw_timestamp e = strftime d"
  by (simp add: canonical_at_def parse_timestamp_def raw_timestamp_def strptime_strftime)

lemma canonical_at_order:
  "canonical_at x a \<Longrightarrow> canonical_at y b \<Longrightarrow> raw_timestamp x \<le> raw_timestamp y \<Longrightarrow>
     dt_tuple a \<le> dt_tuple b"
  using strftime_le [of a b] by (simp add: canonical_at_def raw_timestamp_def)

text \<open>
  Claim C1, as the code has it. When the timestamps of the loaded records are texts (or
  missing), the merged timeline is the concatenated input in the stable ascending order
  of the timestamp text, a missing timestamp counting as the empty text, numbered
  afterwards; so the texts never decrease along the timeline, and records with the same
  text keep their input order. Of two timeline events whose
  timestamps are the canonical zero-padded texts of two instants, the earlier-placed one
  is not the later instant.
\<close>

theorem build_unified_timeline_text_order:
  assumes "\<forall>file events. map_of fs file = Some events \<longrightarrow> (\<forall>e \<in> set events. timestamp_is_text e)"
  shows "build_unified_timeline fs =
           add_timeline_order (sort_key raw_timestamp (load_all_events fs))
         \<and> sorted_wrt (\<lambda>x y. raw_timestamp x \<le> raw_timestamp y) (build_unified_timeline fs)
         \<and> (\<forall>k. filter (\<lambda>e. raw_timestamp e = k)
                  (sort_events_chronologically (load_all_events fs)) =
                filter (\<lambda>e. raw_timestamp e = k) (load_all_events fs))
         \<and> (\<forall>i j a b. i < j \<and> j < length (build_unified_timeline fs)
               \<and> canonical_at (build_unified_timeline fs ! i) a
               \<and> canonical_at (build_unified_timeline fs ! j) b \<longrightarrow>
               parse_timestamp (build_unified_timeline fs ! i) = Some a
               \<and> parse_timestamp (build_unified_timeline fs ! j) = Some b
               \<and> dt_tuple a \<le> dt_tuple b)"
proof -
  let ?T = "build_unified_timeline fs"
  have sort: "sort_events_chronologically (load_all_events fs) =
                sort_key raw_timestamp (load_all_events fs)"
    by (rule sort_events_chronologically_text) (use assms load_all_events_text in blast)
  have eq: "?T = add_timeline_order (sort_key raw_timestamp (load_all_events fs))"
    by (simp only: build_unified_timeline_def sort)
  have stable: "filter (\<lambda>e. raw_timestamp e = k)
                  (sort_events_chronologically (load_all_events fs)) =
                filter (\<lambda>e. raw_timestamp e = k) (load_all_events fs)" for k
    by (simp only: sort sort_key_stable)
  have "sorted (map raw_timestamp ?T)"
    by (simp add: eq add_timeline_order_raw)
  then have sorted: "sorted_wrt (\<lambda>x y. raw_timestamp x \<le> raw_timestamp y) ?T"
    by (simp add: sorted_map)
  have "parse_timestamp (?T ! i) = Some a \<and> parse_timestamp (?T ! j) = Some b
          \<and> dt_tuple a \<le> dt_tuple b"
    if "i < j" "j < length ?T" "canonical_at (?T ! i) a" "canonical_at (?T ! j) b" for i j a b
  proof -
    have "raw_timestamp (?T ! i) \<le> raw_timestamp (?T ! j)"
      using sorted that(1,2) by (simp add: sorted_wrt_iff_nth_less)
    then show ?thesis
      using that(3,4) canonical_at_parse canonical_at_order by blast
  qed
  with eq sorted stable show ?thesis
    by blast
qed

text \<open>
  Two SMS records in canonical form, the later one first, and a record without timestamp:
  the record without timestamp comes first in the timeline, then the two in
  chronological order.
\<close>

theorem build_unified_timeline_text_order_witness:
  "(let fs = [(''../evidence/processed/sms.json'',
               [[(''timestamp'', VStr ''2023-06-02 14:22:03'')],
                [(''timestamp'', VStr ''2023-06-01 14:22:03'')],
                [(''details'', VStr ''x'')]])]
    in (\<forall>file events. map_of fs file = Some events \<longrightarrow> (\<forall>e \<in> set events. timestamp_is_text e))
       \<and> sorted_wrt (\<lambda>x y. raw_timestamp x \<le> raw_timestamp y) (build_unified_timeline fs)
       \<and> map raw_timestamp (build_unified_timeline fs) =
           [[], ''2023-06-01 14:22:03'', ''2023-06-02 14:22:03''])"
proof -
  let ?fs = "[(''../evidence/processed/sms.json'',
               [[(''timestamp'', VStr ''2023-06-02 14:22:03'')],
                [(''timestamp'', VStr ''2023-06-01 14:22:03'')],
                [(''details'', VStr ''x'')]])]"
  have hyp: "\<forall>file events. map_of ?fs file = Some events \<longrightarrow> (\<forall>e \<in> set events. timestamp_is_text e)"
    by (simp add: timestamp_is_text_def)
  note main = build_unified_timeline_text_order [OF hyp]
  have raw: "map raw_timestamp (build_unified_timeline ?fs) =
          [[], ''2023-06-01 14:22:03'', ''2023-06-02 14:22:03'']"
    by (subst conjunct1 [OF main])
       (simp add: add_timeline_order_raw load_all_events_def load_events_def evidence_files_def
          add_source_def dict_has_def dict_set_def raw_timestamp_def)
  have ordered: "sorted_wrt (\<lambda>x y. raw_timestamp x \<le> raw_timestamp y) (build_unified_timeline ?fs)"
    by (rule conjunct1 [OF conjunct2 [OF main]])
  show ?thesis
    unfolding Let_def by (intro conjI) (rule hyp, rule ordered, rule raw)
qed

text \<open>
  The order the specification states fails on the code: a record without timestamp is
  placed before a record with a well-formed one.
\<close>

theorem build_unified_timeline_claimed_order_counterexample:
  "\<not> sorted_wrt claimed_order
       (build_unified_timeline
          [(''../evidence/processed/sms.json'',
            [[(''timestamp'', VStr ''2023-06-01 14:22:03'')], [(''details'', VStr ''x'')]])])"
proof -
  have "build_unified_timeline
          [(''../evidence/processed/sms.json'',
            [[(''timestamp'', VStr ''2023-06-01 14:22:03'')], [(''details'', VStr ''x'')]])] =
        [[(''details'', VStr ''x''), (''source'', VStr ''SMS''), (''timeline_order'', VInt 1)],
         [(''timestamp'', VStr ''2023-06-01 14:22:03''), (''source'', VStr ''SMS''),
          (''timeline_order'', VInt 2)]]"
    by (simp add: build_unified_timeline_def load_all_events_def load_events_def
          evidence_files_def add_source_def dict_has_def dict_set_def
          sort_events_chronologically_def py_sort_def dict_get_def add_timeline_order_def)
  then show ?thesis
    by (simp add: claimed_order_def parse_timestamp_def strptime_example_valid)
qed

section \<open>Properties of the timestamp-gap rule\<close>

lemma well_normalized_index:
  assumes "well_normalized e" "is_valid e"
  shows "dict_index e ''parsed_timestamp'' = Inr (VDatetime (parsed_of e))"
    and "dict_index e ''timestamp'' = Inr (dict_get e ''timestamp'' VNone)"
  using assms by (auto simp: well_normalized_def dict_index_def dict_get_def)

lemma time_diff_datetimes: "time_diff (VDatetime a) (VDatetime b) = Inr (dt_sub a b)"
  by (simp add: time_diff_def)

lemma gap_loop_valid:
  assumes "\<And>e. e \<in> set xs \<Longrightarrow> well_normalized e \<and> is_valid e"
  shows "gap_loop now source_type xs = Inr (map (gap_finding now source_type) (gap_pairs xs))"
  using assms
proof (induction now source_type xs rule: gap_loop.induct)
  case (1 now source_type prev_event curr_event rest)
  have p: "well_normalized prev_event" "is_valid prev_event"
    and c: "well_normalized curr_event" "is_valid curr_event"
    using "1.prems" by simp_all
  have rest: "gap_loop now source_type (curr_event # rest) =
                Inr (map (gap_finding now source_type) (gap_pairs (curr_event # rest)))"
  proof (cases "dt_sub (parsed_of curr_event) (parsed_of prev_event) > GAP_THRESHOLD_HOURS * 3600")
    case True
    show ?thesis
      by (rule "1.IH"(1) [OF well_normalized_index(1) [OF c] well_normalized_index(1) [OF p]
                 time_diff_datetimes True well_normalized_index(2) [OF p]
                 well_normalized_index(2) [OF c]])
         (simp add: "1.prems")
  next
    case False
    show ?thesis
      by (rule "1.IH"(2) [OF well_normalized_index(1) [OF c] well_normalized_index(1) [OF p]
                 time_diff_datetimes False])
         (simp add: "1.prems")
  qed
  show ?case
    by (subst gap_loop.simps,
        simp only: well_normalized_index(1) [OF p] well_normalized_index(1) [OF c]
          well_normalized_index(2) [OF p] well_normalized_index(2) [OF c]
          sum.case time_diff_datetimes rest,
        simp add: gap_pairs_def gap_finding_def GAP_THRESHOLD_HOURS_def td_days_def)
qed (simp_all add: gap_pairs_def)

lemma py_sort_parsed:
  assumes "\<And>e. e \<in> set xs \<Longrightarrow> well_normalized e \<and> is_valid e"
  shows "py_sort (\<lambda>x. dict_index x ''parsed_timestamp'') xs =
           Inr (sort_key (\<lambda>x. dt_tuple (parsed_of x)) xs)"
  by (rule py_sort_linorder [where k = "\<lambda>x. VDatetime (parsed_of x)"])
     (simp_all add: well_normalized_index assms)

lemma gaps_of_source_valid:
  assumes "\<And>e. e \<in> set (snd item) \<Longrightarrow> well_normalized e"
  shows "gaps_of_source now item = Inr (expected_gaps now item)"
proof -
  let ?valid = "filter is_valid (snd item)"
  let ?sorted = "sort_key (\<lambda>x. dt_tuple (parsed_of x)) ?valid"
  have v: "well_normalized e \<and> is_valid e" if "e \<in> set ?valid" for e
    using that assms by simp
  have unfold: "gaps_of_source now item =
      (if length ?valid < 2 then Inr []
       else (case py_sort (\<lambda>x. dict_index x ''parsed_timestamp'') ?valid of
               Inl e \<Rightarrow> Inl e
             | Inr sorted_evidence \<Rightarrow> gap_loop now (fst item) sorted_evidence))"
    by (simp only: gaps_of_source_def Let_def)
  have expected: "expected_gaps now item = map (gap_finding now (fst item)) (gap_pairs ?sorted)"
    by (simp only: expected_gaps_def)
  show ?thesis
  proof (cases "length ?valid < 2")
    case True
    then have "length ?sorted < 2"
      by (simp only: length_sort)
    then have z: "zip ?sorted (tl ?sorted) = []"
      by (cases ?sorted) simp_all
    have "gap_pairs ?sorted = []"
      by (simp only: gap_pairs_def z filter.simps)
    with True show ?thesis
      by (simp only: unfold expected if_True list.map)
  next
    case False
    have "gap_loop now (fst item) ?sorted =
            Inr (map (gap_finding now (fst item)) (gap_pairs ?sorted))"
      by (rule gap_loop_valid) (rule v, simp)
    with False show ?thesis
      by (simp only: unfold expected if_False py_sort_parsed [OF v] sum.case)
  qed
qed

text \<open>
  Claim C2, as the code has it. On evidence in which every record tagged valid carries
  its parsed instant and its timestamp text (what the normalizer produces), the gap rule
  returns, source after source, one timestamp_gap finding for each consecutive pair of
  the source's valid records, in ascending order of their instants, whose elapsed
  duration is strictly greater than 24 hours; a source with fewer than two valid records
  yields none.
\<close>

theorem detect_timestamp_gaps_strict_threshold:
  assumes "\<forall>item \<in> set evidence_data. \<forall>e \<in> set (snd item). well_normalized e"
  shows "detect_timestamp_gaps now evidence_data =
           Inr (concat (map (expected_gaps now) evidence_data))"
proof -
  have "map_err (gaps_of_source now) evidence_data = Inr (map (expected_gaps now) evidence_data)"
    by (rule map_err_all_Inr) (use assms in \<open>simp add: gaps_of_source_valid\<close>)
  then show ?thesis
    by (simp add: detect_timestamp_gaps_def)
qed

text \<open>
  Three sources of two valid records each: 24h00m01s apart (one finding), exactly 24h
  apart (none) and 23h59m59s apart (none).
\<close>

theorem detect_timestamp_gaps_strict_threshold_witness:
  "(let evidence_data =
         [(''SMS'',
           [[(''timestamp'', VStr ''2023-06-01 14:22:03''),
             (''parsed_timestamp'', VDatetime (Datetime 2023 6 1 14 22 3)),
             (''timestamp_valid'', VBool True)],
            [(''timestamp'', VStr ''2023-06-02 14:22:04''),
             (''parsed_timestamp'', VDatetime (Datetime 2023 6 2 14 22 4)),
             (''timestamp_valid'', VBool True)]]),
          (''CALL'',
           [[(''timestamp'', VStr ''2023-06-01 14:22:03''),
             (''parsed_timestamp'', VDatetime (Datetime 2023 6 1 14 22 3)),
             (''timestamp_valid'', VBool True)],
            [(''timestamp'', VStr ''2023-06-02 14:22:03''),
             (''parsed_timestamp'', VDatetime (Datetime 2023 6 2 14 22 3)),
             (''timestamp_valid'', VBool True)]]),
          (''MEDIA'',
           [[(''timestamp'', VStr ''2023-06-01 14:22:03''),
             (''parsed_timestamp'', VDatetime (Datetime 2023 6 1 14 22 3)),
             (''timestamp_valid'', VBool True)],
            [(''timestamp'', VStr ''2023-06-02 14:22:02''),
             (''parsed_timestamp'', VDatetime (Datetime 2023 6 2 14 22 2)),
             (''timestamp_valid'', VBool True)]])]
    in (\<forall>item \<in> set evidence_data. \<forall>e \<in> set (snd item). well_normalized e)
       \<and> detect_timestamp_gaps ''2024-01-01 00:00:00'' evidence_data =
           Inr [[(''timestamp'', VStr ''2024-01-01 00:00:00''), (''source'', VStr ''SMS''),
                 (''type'', VStr ''timestamp_gap''),
                 (''details'',
                  VStr ''Gap of 1 days detected between 2023-06-01 14:22:03 and 2023-06-02 14:22:04'')]])"
proof -
  let ?data =
        "[(''SMS'',
           [[(''timestamp'', VStr ''2023-06-01 14:22:03''),
             (''parsed_timestamp'', VDatetime (Datetime 2023 6 1 14 22 3)),
             (''timestamp_valid'', VBool True)],
            [(''timestamp'', VStr ''2023-06-02 14:22:04''),
             (''parsed_timestamp'', VDatetime (Datetime 2023 6 2 14 22 4)),
             (''timestamp_valid'', VBool True)]]),
          (''CALL'',
           [[(''timestamp'', VStr ''2023-06-01 14:22:03''),
             (''parsed_timestamp'', VDatetime (Datetime 2023 6 1 14 22 3)),
             (''timestamp_valid'', VBool True)],
            [(''timestamp'', VStr ''2023-06-02 14:22:03''),
             (''parsed_timestamp'', VDatetime (Datetime 2023 6 2 14 22 3)),
             (''timestamp_valid'', VBool True)]]),
          (''MEDIA'',
           [[(''timestamp'', VStr ''2023-06-01 14:22:03''),
             (''parsed_timestamp'', VDatetime (Datetime 2023 6 1 14 22 3)),
             (''timestamp_valid'', VBool True)],
            [(''timestamp'', VStr ''2023-06-02 14:22:02''),
             (''parsed_timestamp'', VDatetime (Datetime 2023 6 2 14 22 2)),
             (''timestamp_valid'', VBool True)]])]"
  have hyp: "\<forall>item \<in> set ?data. \<forall>e \<in> set (snd item). well_normalized e"
    by (simp add: well_normalized_def parsed_of_def)
  have expected: "concat (map (expected_gaps ''2024-01-01 00:00:00'') ?data) =
          [[(''timestamp'', VStr ''2024-01-01 00:00:00''), (''source'', VStr ''SMS''),
            (''type'', VStr ''timestamp_gap''),
            (''details'',
             VStr ''Gap of 1 days detected between 2023-06-01 14:22:03 and 2023-06-02 14:22:04'')]]"
    by code_simp
  show ?thesis
    unfolding Let_def
    by (intro conjI, rule hyp)
       (simp only: detect_timestamp_gaps_strict_threshold [OF hyp] expected)
qed

text \<open>
  The boundary the specification states fails on the code: two records exactly 24 hours
  apart are not flagged.
\<close>

theorem detect_timestamp_gaps_exact_day_counterexample:
  "dt_sub (Datetime 2023 6 2 14 22 3) (Datetime 2023 6 1 14 22 3) = 24 * 3600
   \<and> \<not> has_gap_finding
        (gaps_of_raw ''2024-01-01 00:00:00''
           [(''SMS'',
             [[(''timestamp'', VStr ''2023-06-01 14:22:03''), (''source'', VStr ''SMS'')],
              [(''timestamp'', VStr ''2023-06-02 14:22:03''), (''source'', VStr ''SMS'')]])])"
  by code_simp

section \<open>The rules on the normalizer's output\<close>

text \<open>
  A normalized record satisfies \<open>well_normalized\<close>, so the gap rule above applies to what
  the normalizer returns; the future-timestamp rule returns on such evidence as well, and
  the data-integrity rule cannot raise at all.
\<close>

lemma normalized_record_well_normalized: "well_normalized (normalized_record e)"
proof (cases "parse_timestamp e")
  case None
  then show ?thesis
    by (simp add: well_normalized_def is_valid_def dict_get_def normalized_record_valid_flag)
next
  case (Some d)
  then have "map_of e ''timestamp'' \<noteq> None"
    by (auto simp: parse_timestamp_def split: option.splits)
  with Some show ?thesis
    by (simp add: well_normalized_def parsed_of_def normalized_record_parsed
          normalized_record_other)
qed

lemma future_finding_total:
  assumes "well_normalized e" "is_valid e"
  shows "\<exists>findings. future_finding now current_time source_type e = Inr findings"
  by (simp add: future_finding_def well_normalized_index [OF assms])

lemma map_err_total:
  "(\<And>x. x \<in> set xs \<Longrightarrow> \<exists>y. f x = Inr y) \<Longrightarrow> \<exists>ys. map_err f xs = Inr ys"
proof (induction xs)
  case Nil
  show ?case by simp
next
  case (Cons x xs)
  then obtain y ys where "f x = Inr y" "map_err f xs = Inr ys"
    by (metis list.set_intros(1,2))
  then show ?case by simp
qed

lemma detect_temporal_inconsistencies_total:
  assumes "\<forall>item \<in> set evidence_data. \<forall>e \<in> set (snd item). well_normalized e"
  shows "\<exists>findings. detect_temporal_inconsistencies now current_time evidence_data = Inr findings"
proof -
  have "\<exists>ys. future_of_source now current_time item = Inr ys" if "item \<in> set evidence_data" for item
  proof -
    have "\<exists>ys. map_err (future_finding now current_time (fst item)) (filter is_valid (snd item))
                 = Inr ys"
      by (rule map_err_total) (use assms that in \<open>auto intro: future_finding_total\<close>)
    then show ?thesis
      by (auto simp: future_of_source_def)
  qed
  then have "\<exists>ys. map_err (future_of_source now current_time) evidence_data = Inr ys"
    by (rule map_err_total)
  then show ?thesis
    by (auto simp: detect_temporal_inconsistencies_def)
qed

section \<open>Properties of the data-integrity rule\<close>

lemma first_occurrences_snoc:
  "first_occurrences (xs @ [x]) =
     (if x \<in> set xs then first_occurrences xs else first_occurrences xs @ [x])"
  by (simp add: first_occurrences_def)

lemma set_first_occurrences: "set (first_occurrences xs) = set xs"
  by (simp add: first_occurrences_def)

lemma distinct_first_occurrences: "distinct (first_occurrences xs)"
  by (simp add: first_occurrences_def)

lemma map_of_tabulate:
  "map_of (map (\<lambda>k. (k, f k)) ks) x = (if x \<in> set ks then Some (f x) else None)"
  by (induction ks) simp_all

lemma update_tabulate:
  "distinct ks \<Longrightarrow> k \<in> set ks \<Longrightarrow>
     AList.update k v (map (\<lambda>s. (s, f s)) ks) = map (\<lambda>s. (s, (f(k := v)) s)) ks"
  by (induction ks) auto

lemma counter_incr_tabulate:
  "counter_incr (map (\<lambda>s. (s, int (count_list xs s))) (first_occurrences xs)) x =
     map (\<lambda>s. (s, int (count_list (xs @ [x]) s))) (first_occurrences (xs @ [x]))"
proof (cases "x \<in> set xs")
  case True
  have "(\<lambda>s. int (count_list xs s))(x := int (count_list xs x) + 1) =
          (\<lambda>s. int (count_list (xs @ [x]) s))"
    by (rule ext) simp
  with True show ?thesis
    by (simp add: counter_incr_def map_of_tabulate set_first_occurrences
          first_occurrences_snoc update_tabulate distinct_first_occurrences)
next
  case False
  then show ?thesis
    by (auto simp: counter_incr_def map_of_tabulate set_first_occurrences first_occurrences_snoc)
qed

lemma count_signatures:
  "foldl counter_incr [] xs = map (\<lambda>s. (s, int (count_list xs s))) (first_occurrences xs)"
proof (induction xs rule: rev_induct)
  case Nil
  show ?case by (simp add: first_occurrences_def)
next
  case (snoc x xs)
  then show ?case
    by (simp only: foldl_append foldl.simps counter_incr_tabulate)
qed

lemma scan_evidence_signatures:
  "fst (scan_evidence now source_type evidence_list (c, a)) =
     foldl counter_incr c (map signature_of evidence_list)"
  by (induction evidence_list arbitrary: c a) (simp_all add: Let_def)

lemma make_anomaly_type:
  "map_of (make_anomaly now source_type anomaly_type details) ''type'' = Some (VStr anomaly_type)"
  by (simp add: make_anomaly_def)

lemma scan_evidence_no_duplicates:
  "filter is_duplicate_finding (snd (scan_evidence now source_type evidence_list (c, a))) =
     filter is_duplicate_finding a"
  by (induction evidence_list arbitrary: c a)
     (simp_all add: Let_def is_duplicate_finding_def make_anomaly_type)

lemma report_duplicates_all:
  "filter is_duplicate_finding (report_duplicates now source_type entries) =
     report_duplicates now source_type entries"
  by (simp add: report_duplicates_def is_duplicate_finding_def duplicate_anomaly_def
        make_anomaly_type)

lemma duplicates_of_source:
  "filter is_duplicate_finding (data_inconsistencies_of_source now item) =
     expected_duplicates now item"
proof -
  let ?sigs = "map signature_of (snd item)"
  have "fst (scan_evidence now (fst item) (snd item) ([], [])) =
          map (\<lambda>s. (s, int (count_list ?sigs s))) (first_occurrences ?sigs)"
    by (simp only: scan_evidence_signatures count_signatures)
  then show ?thesis
    by (simp add: data_inconsistencies_of_source_def Let_def scan_evidence_no_duplicates
          report_duplicates_all expected_duplicates_def)
       (simp add: report_duplicates_def filter_map comp_def)
qed

text \<open>
  Claim C6. Among the findings of the data-integrity rule, the duplicate_event findings
  are, source after source, exactly one per distinct signature that occurs more than once
  in the source (the distinct signatures taken in order of first occurrence, each once),
  and each reports the number of occurrences of its signature; a signature that occurs
  once yields none.
\<close>

theorem detect_data_inconsistencies_duplicates:
  "filter is_duplicate_finding (detect_data_inconsistencies now evidence_data) =
     concat (map (expected_duplicates now) evidence_data)
   \<and> distinct (first_occurrences (map signature_of evidence_list))
   \<and> set (first_occurrences (map signature_of evidence_list)) =
       set (map signature_of evidence_list)"
proof -
  have "filter is_duplicate_finding (detect_data_inconsistencies now evidence_data) =
          concat (map (expected_duplicates now) evidence_data)"
    by (simp add: detect_data_inconsistencies_def filter_concat comp_def duplicates_of_source)
  then show ?thesis
    by (simp only: distinct_first_occurrences set_first_occurrences simp_thms)
qed

text \<open>
  The spec's example: three identical CALL records (and a fourth, different one) give
  exactly one duplicate_event finding, with count 3.
\<close>

theorem detect_data_inconsistencies_duplicates_witness:
  "filter is_duplicate_finding
     (detect_data_inconsistencies ''2024-01-01 00:00:00''
        [(''CALL'',
          [[(''timestamp'', VStr ''2023-06-01 14:22:03''), (''source'', VStr ''CALL''),
            (''type'', VStr ''incoming''), (''details'', VStr ''Call from 555'')],
           [(''timestamp'', VStr ''2023-06-01 14:22:03''), (''source'', VStr ''CALL''),
            (''type'', VStr ''incoming''), (''details'', VStr ''Call from 555'')],
           [(''timestamp'', VStr ''2023-06-02 09:00:00''), (''source'', VStr ''CALL''),
            (''type'', VStr ''missed''), (''details'', VStr ''Call from 777'')],
           [(''timestamp'', VStr ''2023-06-01 14:22:03''), (''source'', VStr ''CALL''),
            (''type'', VStr ''incoming''), (''details'', VStr ''Call from 555'')]])]) =
   [[(''timestamp'', VStr ''2024-01-01 00:00:00''), (''source'', VStr ''CALL''),
     (''type'', VStr ''duplicate_event''),
     (''details'',
      VStr ''Duplicate event detected 3 times: 2023-06-01 14:22:03_incoming_Call from 555...'')]]"
proof -
  let ?data =
        "[(''CALL'',
          [[(''timestamp'', VStr ''2023-06-01 14:22:03''), (''source'', VStr ''CALL''),
            (''type'', VStr ''incoming''), (''details'', VStr ''Call from 555'')],
           [(''timestamp'', VStr ''2023-06-01 14:22:03''), (''source'', VStr ''CALL''),
            (''type'', VStr ''incoming''), (''details'', VStr ''Call from 555'')],
           [(''timestamp'', VStr ''2023-06-02 09:00:00''), (''source'', VStr ''CALL''),
            (''type'', VStr ''missed''), (''details'', VStr ''Call from 777'')],
           [(''timestamp'', VStr ''2023-06-01 14:22:03''), (''source'', VStr ''CALL''),
            (''type'', VStr ''incoming''), (''details'', VStr ''Call from 555'')]])]"
  have "concat (map (expected_duplicates ''2024-01-01 00:00:00'') ?data) =
          [[(''timestamp'', VStr ''2024-01-01 00:00:00''), (''source'', VStr ''CALL''),
            (''type'', VStr ''duplicate_event''),
            (''details'',
             VStr ''Duplicate event detected 3 times: 2023-06-01 14:22:03_incoming_Call from 555...'')]]"
    by code_simp
  then show ?thesis
    by (simp only: conjunct1 [OF detect_data_inconsistencies_duplicates [of _ ?data "[]"]])
qed

text \<open>
  Claim C10. The signature is not injective on (timestamp, type, details): two records of
  one source that differ in type and in details, the delimiter occurring inside a field,
  get the same signature and are reported as one duplicate_event with count 2.
\<close>

theorem signature_of_collision:
  "(let r1 = [(''timestamp'', VStr ''2023-06-01 14:22:03''), (''source'', VStr ''CALL''),
              (''type'', VStr ''missed_call''), (''details'', VStr ''from 555'')];
        r2 = [(''timestamp'', VStr ''2023-06-01 14:22:03''), (''source'', VStr ''CALL''),
              (''type'', VStr ''missed''), (''details'', VStr ''call_from 555'')]
    in map_of r1 ''type'' \<noteq> map_of r2 ''type''
       \<and> map_of r1 ''details'' \<noteq> map_of r2 ''details''
       \<and> signature_of r1 = signature_of r2
       \<and> detect_data_inconsistencies ''2024-01-01 00:00:00'' [(''CALL'', [r1, r2])] =
           [[(''timestamp'', VStr ''2024-01-01 00:00:00''), (''source'', VStr ''CALL''),
             (''type'', VStr ''duplicate_event''),
             (''details'',
              VStr ''Duplicate event detected 2 times: 2023-06-01 14:22:03_missed_call_from 555...'')]])"
  by code_simp

section \<open>The post-deletion rule on normalized evidence\<close>

lemma py_lt_None: "py_lt VNone b = Inl TypeError" "py_lt a VNone = Inl TypeError"
  by (cases b; simp) (cases a; simp)

lemma py_insort_key_None:
  "f x = VNone \<Longrightarrow> ys \<noteq> [] \<Longrightarrow> py_insort_key f x ys = Inl TypeError"
  by (cases ys) (simp_all add: py_lt_None del: py_lt.simps)

lemma py_sorted_no_None:
  "py_sorted f xs = Inr ys \<Longrightarrow> 2 \<le> length xs \<Longrightarrow> x \<in> set xs \<Longrightarrow> f x \<noteq> VNone"
proof (induction xs arbitrary: ys x)
  case Nil
  then show ?case by simp
next
  case (Cons a xs)
  from Cons.prems(1) obtain zs where zs: "py_sorted f xs = Inr zs"
    and ins: "py_insort_key f a zs = Inr ys"
    by (auto split: sum.splits)
  have len: "length zs = length xs"
    using zs by (rule py_sorted_length)
  with Cons.prems(2) have ne: "zs \<noteq> []"
    by auto
  have a: "f a \<noteq> VNone"
    using ins ne py_insort_key_None [of f a zs] by auto
  show ?case
  proof (cases "2 \<le> length xs")
    case True
    with Cons.IH [OF zs] Cons.prems(3) a show ?thesis by auto
  next
    case False
    with Cons.prems(2) have "length xs = 1"
      by simp
    then obtain b where xs: "xs = [b]"
      by (auto simp: length_Suc_conv)
    with zs have "zs = [b]" by simp
    with ins have "f b \<noteq> VNone"
      by (auto simp: py_lt_None simp del: py_lt.simps)
    with xs a Cons.prems(3) show ?thesis by auto
  qed
qed

text \<open>
  A source of two or more records, one of which has \<open>parsed_timestamp\<close> set to
  \<^verbatim>\<open>None\<close> (what the normalizer stores for an invalid timestamp), makes the sort of the
  post-deletion rule raise \<^verbatim>\<open>TypeError\<close>.
\<close>

lemma post_deletion_of_source_raises:
  assumes "2 \<le> length (snd item)"
    and "e \<in> set (snd item)"
    and "map_of e ''parsed_timestamp'' = Some VNone"
  shows "post_deletion_of_source now item = Inl TypeError"
proof -
  let ?k = "\<lambda>x. dict_get x ''parsed_timestamp'' (VDatetime datetime_min)"
  have keys: "map_err (\<lambda>x. Inr (?k x)) (snd item) = Inr (map ?k (snd item))"
    by (rule map_err_all_Inr) simp
  have "py_sorted fst (zip (map ?k (snd item)) (snd item)) \<noteq> Inr ps" for ps
  proof
    assume "py_sorted fst (zip (map ?k (snd item)) (snd item)) = Inr ps"
    moreover have "2 \<le> length (zip (map ?k (snd item)) (snd item))"
      using assms(1) by simp
    moreover have "(?k e, e) \<in> set (zip (map ?k (snd item)) (snd item))"
      using assms(2) by (auto simp: zip_map_self)
    ultimately have "fst (?k e, e) \<noteq> VNone"
      by (rule py_sorted_no_None)
    with assms(3) show False
      by (simp add: dict_get_def)
  qed
  moreover have "py_sorted f xs = Inl err \<Longrightarrow> err = TypeError" for f :: "'a \<Rightarrow> pyval" and xs err
  proof (induction xs arbitrary: err)
    case Nil
    then show ?case by simp
  next
    case (Cons a xs)
    have ins: "py_insort_key f a zs = Inl err' \<Longrightarrow> err' = TypeError" for zs err'
    proof (induction zs arbitrary: err')
      case Nil
      then show ?case by simp
    next
      case (Cons z zs)
      have "py_lt u v = Inl err'' \<Longrightarrow> err'' = TypeError" for u v err''
        by (cases u; cases v) (auto split: if_splits)
      with Cons show ?case
        by (auto split: sum.splits if_splits)
    qed
    from Cons show ?case
      by (auto split: sum.splits dest: ins)
  qed
  ultimately have "py_sorted fst (zip (map ?k (snd item)) (snd item)) = Inl TypeError"
    by (cases "py_sorted fst (zip (map ?k (snd item)) (snd item))") auto
  then show ?thesis
    by (simp add: post_deletion_of_source_def py_sort_def keys)
qed

text \<open>
  Claim C3 on the code. Normalizing a source with one well-formed and one malformed
  timestamp succeeds, and the post-deletion rule then raises \<^verbatim>\<open>TypeError\<close> on the
  normalized evidence.
\<close>

theorem detect_post_deletion_activity_raises:
  "post_deletion_of_raw ''2024-01-01 00:00:00''
     [(''SMS'',
       [[(''timestamp'', VStr ''2023-06-01 14:22:03''), (''source'', VStr ''SMS''),
         (''type'', VStr ''incoming''), (''details'', VStr ''hello'')],
        [(''timestamp'', VStr ''Unknown''), (''source'', VStr ''SMS''),
         (''type'', VStr ''incoming''), (''details'', VStr ''again'')]])] =
   Inl TypeError"
  by code_simp

text \<open>
  Claim C4 on the code. Two records with well-formed timestamps, the later one first:
  the normalizer keeps their order, and the post-deletion rule, run on the normalized
  evidence, returns without findings and leaves the source's list in the other order.
\<close>

theorem detect_post_deletion_activity_reorders:
  "normalize_timestamps
     [(''SMS'',
       [[(''timestamp'', VStr ''2023-06-02 14:22:03''), (''source'', VStr ''SMS''),
         (''type'', VStr ''incoming''), (''details'', VStr ''second'')],
        [(''timestamp'', VStr ''2023-06-01 14:22:03''), (''source'', VStr ''SMS''),
         (''type'', VStr ''incoming''), (''details'', VStr ''first'')]])] =
   Inr [(''SMS'',
         [[(''timestamp'', VStr ''2023-06-02 14:22:03''), (''source'', VStr ''SMS''),
           (''type'', VStr ''incoming''), (''details'', VStr ''second''),
           (''parsed_timestamp'', VDatetime (Datetime 2023 6 2 14 22 3)),
           (''timestamp_valid'', VBool True)],
          [(''timestamp'', VStr ''2023-06-01 14:22:03''), (''source'', VStr ''SMS''),
           (''type'', VStr ''incoming''), (''details'', VStr ''first''),
           (''parsed_timestamp'', VDatetime (Datetime 2023 6 1 14 22 3)),
           (''timestamp_valid'', VBool True)]])]
   \<and> post_deletion_of_raw ''2024-01-01 00:00:00''
       [(''SMS'',
         [[(''timestamp'', VStr ''2023-06-02 14:22:03''), (''source'', VStr ''SMS''),
           (''type'', VStr ''incoming''), (''details'', VStr ''second'')],
          [(''timestamp'', VStr ''2023-06-01 14:22:03''), (''source'', VStr ''SMS''),
           (''type'', VStr ''incoming''), (''details'', VStr ''first'')]])] =
     Inr ([],
       [(''SMS'',
         [[(''timestamp'', VStr ''2023-06-01 14:22:03''), (''source'', VStr ''SMS''),
           (''type'', VStr ''incoming''), (''details'', VStr ''first''),
           (''parsed_timestamp'', VDatetime (Datetime 2023 6 1 14 22 3)),
           (''timestamp_valid'', VBool True)],
          [(''timestamp'', VStr ''2023-06-02 14:22:03''), (''source'', VStr ''SMS''),
           (''type'', VStr ''incoming''), (''details'', VStr ''second''),
           (''parsed_timestamp'', VDatetime (Datetime 2023 6 2 14 22 3)),
           (''timestamp_valid'', VBool True)]])])"
  by code_simp

section \<open>Properties of persisting the report\<close>

text \<open>
  Claim C9, as the code has it. The report is written in place: when opening the file
  fails the files are untouched; when every piece is written the file holds the complete
  report; when a write fails after the file was opened, the file holds the pieces written
  so far, a prefix of the report's text, in place of what it held before. No other file
  is changed.
\<close>

theorem save_anomaly_report_in_place:
  "map_of (save_anomaly_report chunks output_file outcome files) output_file =
     (case outcome of
        OpenFails \<Rightarrow> map_of files output_file
      | WriteFails k \<Rightarrow> Some (concat (take k chunks))
      | WriteOk \<Rightarrow> Some (concat chunks))
   \<and> concat chunks = concat (take k chunks) @ concat (drop k chunks)
   \<and> (\<forall>path. path \<noteq> output_file \<longrightarrow>
         map_of (save_anomaly_report chunks output_file outcome files) path = map_of files path)"
proof -
  have "concat chunks = concat (take k chunks @ drop k chunks)"
    by simp
  then have "concat chunks = concat (take k chunks) @ concat (drop k chunks)"
    by (simp only: concat_append)
  then show ?thesis
    by (simp add: save_anomaly_report_def update_conv' split: write_outcome.splits)
qed

text \<open>
  A write that fails after the first of two pieces leaves that piece in the report file
  and leaves the timeline file alone.
\<close>

theorem save_anomaly_report_in_place_witness:
  "(let files = [(''anomaly_analysis_report.json'', ''[]''), (''timeline.json'', ''[]'')];
        after = save_anomaly_report [''{'', ''}''] ''anomaly_analysis_report.json''
                  (WriteFails 1) files
    in ''timeline.json'' \<noteq> ''anomaly_analysis_report.json''
       \<and> map_of after ''anomaly_analysis_report.json'' = Some ''{''
       \<and> map_of after ''timeline.json'' = map_of files ''timeline.json'')"
  using save_anomaly_report_in_place
          [of "[''{'', ''}'']" "''anomaly_analysis_report.json''" "WriteFails 1"
              "[(''anomaly_analysis_report.json'', ''[]''), (''timeline.json'', ''[]'')]" 1]
  by (simp add: Let_def)

text \<open>
  Atomicity fails on the code: the same failed write leaves neither the complete report
  nor the previous content.
\<close>

theorem save_anomaly_report_atomic_counterexample:
  "\<not> atomic_save [''{'', ''}''] ''anomaly_analysis_report.json''
       [(''anomaly_analysis_report.json'', ''[]'')]
       (save_anomaly_report [''{'', ''}''] ''anomaly_analysis_report.json'' (WriteFails 1)
          [(''anomaly_analysis_report.json'', ''[]'')])"
  by (simp add: atomic_save_def save_anomaly_report_def)

end
